theory Spec2Isabelle
  imports Complex_Main
begin

section \<open>Values, errors and the Python operations the program applies to them\<close>

text \<open>
  The program handles what \<^verbatim>\<open>json.load\<close> and \<^verbatim>\<open>resp.json()\<close> return: \<^verbatim>\<open>None\<close>, booleans,
  numbers, strings, lists and dictionaries. A dictionary is kept as the list of its items
  in insertion order, since the program iterates over dictionaries; Python guarantees that
  the keys of a dictionary are distinct, and the parsed keys are strings. \<open>JFloat\<close>
  stands for a finite float (the program only ever tests a float for being zero). A string
  is a list of characters, and iterating over a string gives its characters one by one.
\<close>

datatype json =
    JNull
  | JBool bool
  | JInt int
  | JFloat real
  | JStr string
  | JArr "json list"
  | JObj "(string \<times> json) list"

text \<open>
  The exceptions that can leave the program. \<open>AttributeError\<close> and \<open>IOError\<close> carry the
  message, because the program itself raises both and tells its error kinds apart by the
  message only. \<open>ExternalError\<close> is whatever the HTTP library, the JSON parser or the
  file system raises.
\<close>

datatype error =
    AttributeError string
  | IOError string
  | KeyError json
  | TypeError
  | IndexError
  | ExternalError string

text \<open>Truth value of a Python object, as used by \<^verbatim>\<open>if x\<close>, \<^verbatim>\<open>not x\<close> and \<^verbatim>\<open>x and y\<close>.\<close>

fun truthy :: "json \<Rightarrow> bool" where
  "truthy JNull = False"
| "truthy (JBool b) = b"
| "truthy (JInt n) = (n \<noteq> 0)"
| "truthy (JFloat r) = (r \<noteq> 0)"
| "truthy (JStr s) = (s \<noteq> [])"
| "truthy (JArr xs) = (xs \<noteq> [])"
| "truthy (JObj kvs) = (kvs \<noteq> [])"

fun type_name_of :: "json \<Rightarrow> string" where
  "type_name_of JNull = ''NoneType''"
| "type_name_of (JBool b) = ''bool''"
| "type_name_of (JInt n) = ''int''"
| "type_name_of (JFloat r) = ''float''"
| "type_name_of (JStr s) = ''str''"
| "type_name_of (JArr xs) = ''list''"
| "type_name_of (JObj kvs) = ''dict''"

text \<open>The \<open>AttributeError\<close> Python raises for \<^verbatim>\<open>v.attr\<close> on an object without that attribute.\<close>

definition quoted :: "string \<Rightarrow> string" where
  "quoted s = CHR 0x27 # s @ [CHR 0x27]"

definition no_attribute :: "json \<Rightarrow> string \<Rightarrow> error" where
  "no_attribute v attr =
     AttributeError (quoted (type_name_of v) @ '' object has no attribute '' @ quoted attr)"

text \<open>\<^verbatim>\<open>None\<close> for an absent optional string, as the constructor's defaults have it.\<close>

definition opt_str :: "string option \<Rightarrow> json" where
  "opt_str x = (case x of None \<Rightarrow> JNull | Some s \<Rightarrow> JStr s)"

subsection \<open>Strings\<close>

definition startswith :: "string \<Rightarrow> string \<Rightarrow> bool" where
  "startswith s p = (take (length p) s = p)"

definition endswith :: "string \<Rightarrow> string \<Rightarrow> bool" where
  "endswith s p = (take (length p) (rev s) = rev p)"

text \<open>\<^verbatim>\<open>sep.join(xs)\<close> on a list of strings.\<close>

fun join :: "string \<Rightarrow> string list \<Rightarrow> string" where
  "join sep [] = []"
| "join sep [x] = x"
| "join sep (x # y # ys) = x @ sep @ join sep (y # ys)"

text \<open>\<^verbatim>\<open>sep.join(xs)\<close> on a list of objects: a \<open>TypeError\<close> unless every item is a string.\<close>

fun the_strs :: "json list \<Rightarrow> error + string list" where
  "the_strs [] = Inr []"
| "the_strs (JStr s # vs) = (case the_strs vs of Inl e \<Rightarrow> Inl e | Inr ss \<Rightarrow> Inr (s # ss))"
| "the_strs (v # vs) = Inl TypeError"

definition join_values :: "string \<Rightarrow> json list \<Rightarrow> error + string" where
  "join_values sep vs = (case the_strs vs of Inl e \<Rightarrow> Inl e | Inr ss \<Rightarrow> Inr (join sep ss))"

text \<open>\<^verbatim>\<open>s.strip('.')\<close>: the leading and the trailing dots removed.\<close>

definition strip_dots :: "string \<Rightarrow> string" where
  "strip_dots s =
     rev (dropWhile (\<lambda>c. c = CHR ''.'') (rev (dropWhile (\<lambda>c. c = CHR ''.'') s)))"

text \<open>
  \<^verbatim>\<open>[i.strip('.') for i in args]\<close>: the first item that is not a string raises the
  \<open>AttributeError\<close> for the missing method.
\<close>

fun strip_each :: "json list \<Rightarrow> error + string list" where
  "strip_each [] = Inr []"
| "strip_each (JStr s # vs) =
     (case strip_each vs of Inl e \<Rightarrow> Inl e | Inr ss \<Rightarrow> Inr (strip_dots s # ss))"
| "strip_each (v # vs) = Inl (no_attribute v ''strip'')"

text \<open>\<^verbatim>\<open>os.path.join(a, b)\<close> of the POSIX path module, for two components.\<close>

definition path_join :: "string \<Rightarrow> string \<Rightarrow> string" where
  "path_join a b =
     (if startswith b ''/'' then b
      else if a = [] \<or> endswith a ''/'' then a @ b
      else a @ ''/'' @ b)"

text \<open>
  \<^verbatim>\<open>'{0}={1}'.format(k, v)\<close> writes a string \<open>v\<close> as it is. What Python writes for any
  other object is the built-in conversion to text, which is not part of the program: it is
  the parameter \<open>py_str\<close>.
\<close>

definition format_value :: "(json \<Rightarrow> string) \<Rightarrow> json \<Rightarrow> string" where
  "format_value py_str v = (case v of JStr s \<Rightarrow> s | _ \<Rightarrow> py_str v)"

subsection \<open>Containers\<close>

text \<open>\<^verbatim>\<open>sub in s\<close> on two strings: \<open>sub\<close> occurs in \<open>s\<close> as a contiguous piece.\<close>

fun substring :: "string \<Rightarrow> string \<Rightarrow> bool" where
  "substring sub [] = (sub = [])"
| "substring sub (c # cs) = (startswith (c # cs) sub \<or> substring sub cs)"

text \<open>
  \<^verbatim>\<open>k in v\<close> for a string \<open>k\<close>: a key of a dictionary, an item of a list, a piece of a
  string; a \<open>TypeError\<close> on anything else.
\<close>

fun py_contains :: "json \<Rightarrow> string \<Rightarrow> error + bool" where
  "py_contains (JObj kvs) k = Inr (k \<in> set (map fst kvs))"
| "py_contains (JArr xs) k = Inr (JStr k \<in> set xs)"
| "py_contains (JStr s) k = Inr (substring k s)"
| "py_contains v k = Inl TypeError"

text \<open>\<^verbatim>\<open>xs[n]\<close> on a sequence: a negative index counts from the end.\<close>

definition seq_index :: "'a list \<Rightarrow> int \<Rightarrow> error + 'a" where
  "seq_index xs n =
     (let len = int (length xs); j = (if n < 0 then n + len else n)
      in if 0 \<le> j \<and> j < len then Inr (xs ! nat j) else Inl IndexError)"

text \<open>
  \<^verbatim>\<open>v[k]\<close>. A dictionary raises \<open>KeyError\<close> for a missing key and \<open>TypeError\<close> for a
  key that cannot be hashed (its keys are strings, so no other object is found); a list or
  a string takes an integer (a boolean counts as 0 or 1); nothing else can be subscripted.
\<close>

fun py_getitem :: "json \<Rightarrow> json \<Rightarrow> error + json" where
  "py_getitem (JObj kvs) (JStr k) =
     (case map_of kvs k of None \<Rightarrow> Inl (KeyError (JStr k)) | Some v \<Rightarrow> Inr v)"
| "py_getitem (JObj kvs) (JArr xs) = Inl TypeError"
| "py_getitem (JObj kvs) (JObj d) = Inl TypeError"
| "py_getitem (JObj kvs) k = Inl (KeyError k)"
| "py_getitem (JArr xs) (JInt n) = seq_index xs n"
| "py_getitem (JArr xs) (JBool b) = seq_index xs (if b then 1 else 0)"
| "py_getitem (JArr xs) k = Inl TypeError"
| "py_getitem (JStr s) (JInt n) =
     (case seq_index s n of Inl e \<Rightarrow> Inl e | Inr c \<Rightarrow> Inr (JStr [c]))"
| "py_getitem (JStr s) (JBool b) =
     (case seq_index s (if b then 1 else 0) of Inl e \<Rightarrow> Inl e | Inr c \<Rightarrow> Inr (JStr [c]))"
| "py_getitem (JStr s) k = Inl TypeError"
| "py_getitem v k = Inl TypeError"

text \<open>\<^verbatim>\<open>v.get(k)\<close>: only a dictionary has the method; a missing key gives \<^verbatim>\<open>None\<close>.\<close>

fun py_get :: "json \<Rightarrow> string \<Rightarrow> error + json" where
  "py_get (JObj kvs) k = Inr (case map_of kvs k of None \<Rightarrow> JNull | Some v \<Rightarrow> v)"
| "py_get v k = Inl (no_attribute v ''get'')"

text \<open>
  \<^verbatim>\<open>for x in v\<close>: the keys of a dictionary, the items of a list, the characters of a
  string; a \<open>TypeError\<close> on anything else.
\<close>

fun py_iter :: "json \<Rightarrow> error + json list" where
  "py_iter (JObj kvs) = Inr (map (\<lambda>kv. JStr (fst kv)) kvs)"
| "py_iter (JArr xs) = Inr xs"
| "py_iter (JStr s) = Inr (map (\<lambda>c. JStr [c]) s)"
| "py_iter v = Inl TypeError"

section \<open>The URL builder and the path builder\<close>

text \<open>
  \<^verbatim>\<open>make_url(uri, *path, **params)\<close>. The path items are the objects the callers pass
  (strings, \<^verbatim>\<open>None\<close>, or a value read from a document); \<open>params\<close> are the keyword
  arguments in the order they are written.
\<close>

definition make_url ::
  "(json \<Rightarrow> string) \<Rightarrow> string \<Rightarrow> json list \<Rightarrow> (string \<times> json) list \<Rightarrow> error + string" where
  "make_url py_str uri path params =
     (let uri' = (if \<not> endswith uri ''/'' then uri @ ''/'' else uri) in
      case join_values ''/'' (filter truthy path) of
        Inl e \<Rightarrow> Inl e
      | Inr path' \<Rightarrow>
          (let params' = join ''&'' (map (\<lambda>(k, v). k @ ''='' @ format_value py_str v) params) in
           if params' = [] then Inr (uri' @ path')
           else Inr (uri' @ path' @ ''?'' @ params')))"

text \<open>
  \<^verbatim>\<open>make_fp(path, *args, ext='.json')\<close>. \<open>path\<close> is \<^verbatim>\<open>self.dirname\<close>, a string or
  \<^verbatim>\<open>None\<close>; \<^verbatim>\<open>os.path.join\<close> raises a \<open>TypeError\<close> on \<^verbatim>\<open>None\<close>.
\<close>

definition make_fp :: "string option \<Rightarrow> json list \<Rightarrow> string \<Rightarrow> error + string" where
  "make_fp path args ext =
     (case strip_each (filter truthy args) of
        Inl e \<Rightarrow> Inl e
      | Inr parts \<Rightarrow>
          (case path of
             None \<Rightarrow> Inl TypeError
           | Some p \<Rightarrow> Inr (path_join p (join ''.'' parts) @ ext)))"

text \<open>
  The two kinds of file the exporter writes for a type, and the arguments with which
  \<^verbatim>\<open>dump_mapping\<close> and \<^verbatim>\<open>dump_data\<close> call \<^verbatim>\<open>make_fp\<close> for them.
\<close>

datatype kind = Mapping | Document

fun kind_args :: "kind \<Rightarrow> json list" where
  "kind_args Mapping = [JStr ''mapping'']"
| "kind_args Document = []"

definition file_of :: "string \<Rightarrow> string \<Rightarrow> string \<Rightarrow> kind \<Rightarrow> error + string" where
  "file_of dir idx ty k = make_fp (Some dir) ([JStr idx, JStr ty] @ kind_args k) ''.json''"

section \<open>The mapping reader\<close>

text \<open>
  An \<^verbatim>\<open>EsProcessing\<close> object: the constructor's three arguments. (The fourth attribute,
  the HTTP session, is part of the environment below.)
\<close>

record config =
  self_uri :: string
  self_index_name :: "string option"
  self_dirname :: "string option"

text \<open>
  Everything outside the program: the cluster behind the HTTP session, the local files,
  and Python's conversion of an object to text. The state \<open>'w\<close> of the outside world is
  not known to the program; each operation that can change it returns the new state.
  \<^item> \<open>http_get url\<close> is \<^verbatim>\<open>session.get(url).json()\<close> (a timeout is one of the errors);
  \<^item> \<open>http_put url body\<close> is \<^verbatim>\<open>session.put(url, json=body)\<close>;
  \<^item> \<open>path_exists\<close> is \<^verbatim>\<open>os.path.exists\<close>;
  \<^item> \<open>walk_files dir\<close> is the \<^verbatim>\<open>files\<close> component of each triple of \<^verbatim>\<open>os.walk(dir)\<close>;
  \<^item> \<open>open_write fp\<close> is \<^verbatim>\<open>open(fp, 'w')\<close> and \<open>json_dump fp v\<close> is \<^verbatim>\<open>json.dump(v, f)\<close>
    into that file;
  \<^item> \<open>json_load fp\<close> is \<^verbatim>\<open>open(fp)\<close> followed by \<^verbatim>\<open>json.load(f)\<close>.
\<close>

record 'w env =
  http_get :: "string \<Rightarrow> 'w \<Rightarrow> (error + json) \<times> 'w"
  http_put :: "string \<Rightarrow> json \<Rightarrow> 'w \<Rightarrow> error option \<times> 'w"
  path_exists :: "string \<Rightarrow> 'w \<Rightarrow> bool"
  walk_files :: "string \<Rightarrow> 'w \<Rightarrow> string list list"
  open_write :: "string \<Rightarrow> 'w \<Rightarrow> error option \<times> 'w"
  json_dump :: "string \<Rightarrow> json \<Rightarrow> 'w \<Rightarrow> error option \<times> 'w"
  json_load :: "string \<Rightarrow> 'w \<Rightarrow> error + json"
  py_str :: "json \<Rightarrow> string"

text \<open>
  What the program did to the outside world, in order: every HTTP request (a GET with
  what came back) and every file it opened. The progress messages it prints are left out.
\<close>

datatype event =
    Get string "error + json"
  | Put string json
  | OpenWrite string
  | Dump string json
  | Load string

record 'w state =
  trace :: "event list"
  world :: "'w"

definition do_get :: "'w env \<Rightarrow> string \<Rightarrow> 'w state \<Rightarrow> (error + json) \<times> 'w state" where
  "do_get env url st =
     (case http_get env url (world st) of
        (r, w') \<Rightarrow> (r, \<lparr>trace = trace st @ [Get url r], world = w'\<rparr>))"

definition do_put :: "'w env \<Rightarrow> string \<Rightarrow> json \<Rightarrow> 'w state \<Rightarrow> error option \<times> 'w state" where
  "do_put env url body st =
     (case http_put env url body (world st) of
        (r, w') \<Rightarrow> (r, \<lparr>trace = trace st @ [Put url body], world = w'\<rparr>))"

definition do_open_write :: "'w env \<Rightarrow> string \<Rightarrow> 'w state \<Rightarrow> error option \<times> 'w state" where
  "do_open_write env fp st =
     (case open_write env fp (world st) of
        (r, w') \<Rightarrow> (r, \<lparr>trace = trace st @ [OpenWrite fp], world = w'\<rparr>))"

definition do_dump :: "'w env \<Rightarrow> string \<Rightarrow> json \<Rightarrow> 'w state \<Rightarrow> error option \<times> 'w state" where
  "do_dump env fp v st =
     (case json_dump env fp v (world st) of
        (r, w') \<Rightarrow> (r, \<lparr>trace = trace st @ [Dump fp v], world = w'\<rparr>))"

definition do_load :: "'w env \<Rightarrow> string \<Rightarrow> 'w state \<Rightarrow> (error + json) \<times> 'w state" where
  "do_load env fp st = (json_load env fp (world st), st\<lparr>trace := trace st @ [Load fp]\<rparr>)"

text \<open>
  The checks of \<^verbatim>\<open>query_from_url\<close> on the parsed body \<open>data\<close>, lines 66 to 73:
  \<^verbatim>\<open>'error' in data\<close>, then, for a configured index,
  \<^verbatim>\<open>data[self.index_name].get('mappings')\<close>.
\<close>

definition invalid_request :: error where
  "invalid_request = AttributeError ''Invalid url path''"

definition mapping_not_found :: "string \<Rightarrow> error" where
  "mapping_not_found idx = AttributeError (''Mapping of index '' @ idx @ '' has not been set'')"

definition check_body :: "string option \<Rightarrow> json \<Rightarrow> error + json" where
  "check_body idx data =
     (case py_contains data ''error'' of
        Inl e \<Rightarrow> Inl e
      | Inr True \<Rightarrow> Inl invalid_request
      | Inr False \<Rightarrow>
          if truthy (opt_str idx) then
            (case py_getitem data (opt_str idx) of
               Inl e \<Rightarrow> Inl e
             | Inr entry \<Rightarrow>
                 (case py_get entry ''mappings'' of
                    Inl e \<Rightarrow> Inl e
                  | Inr m \<Rightarrow>
                      if \<not> truthy m then Inl (mapping_not_found (the idx)) else Inr data))
          else Inr data)"

definition query_from_url :: "'w env \<Rightarrow> config \<Rightarrow> 'w state \<Rightarrow> (error + json) \<times> 'w state" where
  "query_from_url env self st =
     (case make_url (py_str env) (self_uri self) [opt_str (self_index_name self), JStr ''_mapping''] [] of
        Inl e \<Rightarrow> (Inl e, st)
      | Inr url \<Rightarrow>
          (case do_get env url st of
             (Inl e, st') \<Rightarrow> (Inl e, st')
           | (Inr data, st') \<Rightarrow> (check_body (self_index_name self) data, st')))"

text \<open>
  \<^verbatim>\<open>query_mappings\<close> is a generator: its model gives the records it yields when it is
  drained, and the exception that ends it, if one does. The records yielded before an
  exception have reached the consumer.
\<close>

record mapping_record =
  index :: json
  type :: json
  schema :: json

definition excludes :: "json list" where
  "excludes = [JStr ''_default_'', JStr ''_all'', JStr ''properties'']"

text \<open>The inner loop \<^verbatim>\<open>for m in mappings\<close> over the items \<open>ms\<close> still to come.\<close>

fun type_records :: "json \<Rightarrow> json \<Rightarrow> json list \<Rightarrow> mapping_record list \<times> error option" where
  "type_records i mappings [] = ([], None)"
| "type_records i mappings (m # ms) =
     (if m \<in> set excludes then type_records i mappings ms
      else
        (case py_getitem mappings m of
           Inl e \<Rightarrow> ([], Some e)
         | Inr tv \<Rightarrow>
             (case py_get tv ''properties'' of
                Inl e \<Rightarrow> ([], Some e)
              | Inr sch \<Rightarrow>
                  (case type_records i mappings ms of
                     (rs, err) \<Rightarrow> (\<lparr>index = i, type = m, schema = sch\<rparr> # rs, err)))))"

text \<open>The outer loop \<^verbatim>\<open>for i in data\<close> over the items \<open>is\<close> still to come.\<close>

fun index_records :: "json \<Rightarrow> json list \<Rightarrow> mapping_record list \<times> error option" where
  "index_records data [] = ([], None)"
| "index_records data (i # is) =
     (case py_getitem data i of
        Inl e \<Rightarrow> ([], Some e)
      | Inr entry \<Rightarrow>
          (case py_getitem entry (JStr ''mappings'') of
             Inl e \<Rightarrow> ([], Some e)
           | Inr mappings \<Rightarrow>
               (case py_iter mappings of
                  Inl e \<Rightarrow> ([], Some e)
                | Inr ms \<Rightarrow>
                    (case type_records i mappings ms of
                       (rs, Some e) \<Rightarrow> (rs, Some e)
                     | (rs, None) \<Rightarrow>
                         (case index_records data is of
                            (rs', err) \<Rightarrow> (rs @ rs', err))))))"

definition query_mappings ::
  "'w env \<Rightarrow> config \<Rightarrow> 'w state \<Rightarrow> (mapping_record list \<times> error option) \<times> 'w state" where
  "query_mappings env self st =
     (case query_from_url env self st of
        (Inl e, st') \<Rightarrow> (([], Some e), st')
      | (Inr data, st') \<Rightarrow>
          (case py_iter data of
             Inl e \<Rightarrow> (([], Some e), st')
           | Inr is \<Rightarrow> (index_records data is, st')))"

section \<open>The scroll reader\<close>

text \<open>The URL of the initial search, lines 110 and 111, and of a continuation, lines 125 and 126.\<close>

definition search_url ::
  "(json \<Rightarrow> string) \<Rightarrow> string \<Rightarrow> json \<Rightarrow> json \<Rightarrow> string \<Rightarrow> error + string" where
  "search_url to_str u index_name type_name scroll =
     make_url to_str u [index_name, type_name, JStr ''_search'']
       [(''scroll'', JStr scroll), (''search_type'', JStr ''scan'')]"

definition scroll_url :: "(json \<Rightarrow> string) \<Rightarrow> string \<Rightarrow> string \<Rightarrow> json \<Rightarrow> error + string" where
  "scroll_url to_str u scroll scroll_id =
     make_url to_str u [JStr ''_search/scroll'']
       [(''search_type'', JStr ''scan''), (''scroll'', JStr scroll), (''scroll_id'', scroll_id)]"

text \<open>\<^verbatim>\<open>resp['hits']['hits']\<close>\<close>

definition resp_hits :: "json \<Rightarrow> error + json" where
  "resp_hits resp =
     (case py_getitem resp (JStr ''hits'') of
        Inl e \<Rightarrow> Inl e
      | Inr h \<Rightarrow> py_getitem h (JStr ''hits''))"

text \<open>
  The \<^verbatim>\<open>while True\<close> loop of \<^verbatim>\<open>scroll_data\<close>, lines 118 to 134, with the current
  \<open>scroll_id\<close>. The cluster decides how long the loop runs, so the model takes the number
  of continuation requests it may issue; \<open>None\<close> says that this number did not suffice.
  Otherwise the result is the hits yielded, in order, and the exception that ended the
  generator, if any.
\<close>

fun scroll_loop ::
  "'w env \<Rightarrow> string \<Rightarrow> string \<Rightarrow> nat \<Rightarrow> json \<Rightarrow> 'w state
   \<Rightarrow> ((json list \<times> error option) \<times> 'w state) option" where
  "scroll_loop env u scroll 0 scroll_id st = None"
| "scroll_loop env u scroll (Suc n) scroll_id st =
     (case scroll_url (py_str env) u scroll scroll_id of
        Inl e \<Rightarrow> Some (([], Some e), st)
      | Inr url \<Rightarrow>
          (case do_get env url st of
             (Inl e, st') \<Rightarrow> Some (([], Some e), st')
           | (Inr resp, st') \<Rightarrow>
               (case resp_hits resp of
                  Inl e \<Rightarrow> Some (([], Some e), st')
                | Inr hh \<Rightarrow>
                    (case py_iter hh of
                       Inl e \<Rightarrow> Some (([], Some e), st')
                     | Inr hits \<Rightarrow>
                         (case py_get resp ''_scroll_id'' of
                            Inl e \<Rightarrow> Some ((hits, Some e), st')
                          | Inr scroll_id' \<Rightarrow>
                              if scroll_id' = JNull \<or> \<not> truthy hh
                              then Some ((hits, None), st')
                              else
                                (case scroll_loop env u scroll n scroll_id' st' of
                                   None \<Rightarrow> None
                                 | Some ((later, err), st'') \<Rightarrow>
                                     Some ((hits @ later, err), st'')))))))"

text \<open>
  \<^verbatim>\<open>scroll_data(uri, index_name, type_name, scroll)\<close>, drained. The index and the type are
  the objects found in a mapping record.
\<close>

definition scroll_data ::
  "'w env \<Rightarrow> string \<Rightarrow> json \<Rightarrow> json \<Rightarrow> string \<Rightarrow> nat \<Rightarrow> 'w state
   \<Rightarrow> ((json list \<times> error option) \<times> 'w state) option" where
  "scroll_data env u index_name type_name scroll fuel st =
     (case search_url (py_str env) u index_name type_name scroll of
        Inl e \<Rightarrow> Some (([], Some e), st)
      | Inr type_url \<Rightarrow>
          (case do_get env type_url st of
             (Inl e, st') \<Rightarrow> Some (([], Some e), st')
           | (Inr type_resp, st') \<Rightarrow>
               (case py_get type_resp ''_scroll_id'' of
                  Inl e \<Rightarrow> Some (([], Some e), st')
                | Inr scroll_id \<Rightarrow>
                    if scroll_id = JNull then Some (([], None), st')
                    else scroll_loop env u scroll fuel scroll_id st')))"

section \<open>The exporter\<close>

text \<open>
  The bodies of the \<^verbatim>\<open>for\<close> loops of \<^verbatim>\<open>dump_mapping\<close> and \<^verbatim>\<open>dump_data\<close> over the records
  the generator yields. A procedure returns \<open>None\<close> when it completes and \<open>Some e\<close> when
  the exception \<open>e\<close> leaves it.
\<close>

fun dump_mapping_loop ::
  "'w env \<Rightarrow> config \<Rightarrow> mapping_record list \<Rightarrow> 'w state \<Rightarrow> error option \<times> 'w state" where
  "dump_mapping_loop env self [] st = (None, st)"
| "dump_mapping_loop env self (i # rs) st =
     (case make_fp (self_dirname self) [index i, type i, JStr ''mapping''] ''.json'' of
        Inl e \<Rightarrow> (Some e, st)
      | Inr fp \<Rightarrow>
          (case do_open_write env fp st of
             (Some e, st1) \<Rightarrow> (Some e, st1)
           | (None, st1) \<Rightarrow>
               (case do_dump env fp (JObj [(''properties'', schema i)]) st1 of
                  (Some e, st2) \<Rightarrow> (Some e, st2)
                | (None, st2) \<Rightarrow> dump_mapping_loop env self rs st2)))"

definition dump_mapping :: "'w env \<Rightarrow> config \<Rightarrow> 'w state \<Rightarrow> error option \<times> 'w state" where
  "dump_mapping env self st =
     (case query_mappings env self st of
        ((rs, err), st') \<Rightarrow>
          (case dump_mapping_loop env self rs st' of
             (Some e, st'') \<Rightarrow> (Some e, st'')
           | (None, st'') \<Rightarrow> (err, st'')))"

fun dump_data_loop ::
  "'w env \<Rightarrow> config \<Rightarrow> nat \<Rightarrow> mapping_record list \<Rightarrow> 'w state
   \<Rightarrow> (error option \<times> 'w state) option" where
  "dump_data_loop env self fuel [] st = Some (None, st)"
| "dump_data_loop env self fuel (i # rs) st =
     (case make_fp (self_dirname self) [index i, type i] ''.json'' of
        Inl e \<Rightarrow> Some (Some e, st)
      | Inr fp \<Rightarrow>
          (case do_open_write env fp st of
             (Some e, st1) \<Rightarrow> Some (Some e, st1)
           | (None, st1) \<Rightarrow>
               (case scroll_data env (self_uri self) (index i) (type i) ''1m'' fuel st1 of
                  None \<Rightarrow> None
                | Some ((hits, Some e), st2) \<Rightarrow> Some (Some e, st2)
                | Some ((hits, None), st2) \<Rightarrow>
                    (case do_dump env fp (JArr hits) st2 of
                       (Some e, st3) \<Rightarrow> Some (Some e, st3)
                     | (None, st3) \<Rightarrow> dump_data_loop env self fuel rs st3))))"

definition dump_data ::
  "'w env \<Rightarrow> config \<Rightarrow> nat \<Rightarrow> 'w state \<Rightarrow> (error option \<times> 'w state) option" where
  "dump_data env self fuel st =
     (case query_mappings env self st of
        ((rs, err), st') \<Rightarrow>
          (case dump_data_loop env self fuel rs st' of
             None \<Rightarrow> None
           | Some (Some e, st'') \<Rightarrow> Some (Some e, st'')
           | Some (None, st'') \<Rightarrow> Some (err, st'')))"

text \<open>\<^verbatim>\<open>self.dirname and os.path.exists(self.dirname)\<close>\<close>

definition dir_exists :: "'w env \<Rightarrow> config \<Rightarrow> 'w \<Rightarrow> bool" where
  "dir_exists env self w =
     (case self_dirname self of None \<Rightarrow> False | Some d \<Rightarrow> d \<noteq> [] \<and> path_exists env d w)"

text \<open>\<^verbatim>\<open>IOError('Dir {0} does not exist.'.format(self.dirname))\<close>\<close>

definition directory_not_found :: "'w env \<Rightarrow> config \<Rightarrow> error" where
  "directory_not_found env self =
     IOError (''Dir '' @ format_value (py_str env) (opt_str (self_dirname self)) @ '' does not exist.'')"

definition save ::
  "'w env \<Rightarrow> config \<Rightarrow> nat \<Rightarrow> 'w state \<Rightarrow> (error option \<times> 'w state) option" where
  "save env self fuel st =
     (if \<not> dir_exists env self (world st) then Some (Some (directory_not_found env self), st)
      else
        (case dump_mapping env self st of
           (Some e, st') \<Rightarrow> Some (Some e, st')
         | (None, st') \<Rightarrow> dump_data env self fuel st'))"

section \<open>The importer\<close>

definition upload_mapping ::
  "'w env \<Rightarrow> config \<Rightarrow> string \<Rightarrow> 'w state \<Rightarrow> error option \<times> 'w state" where
  "upload_mapping env self type_name st =
     (case make_url (py_str env) (self_uri self)
             [opt_str (self_index_name self), JStr ''_mapping'', JStr type_name] [] of
        Inl e \<Rightarrow> (Some e, st)
      | Inr url \<Rightarrow>
          (case make_fp (self_dirname self)
                  [opt_str (self_index_name self), JStr type_name, JStr ''mapping''] ''.json'' of
             Inl e \<Rightarrow> (Some e, st)
           | Inr fp \<Rightarrow>
               if \<not> path_exists env fp (world st)
               then (Some (IOError (''Mapping file of '' @ type_name @ '' does not exist.'')), st)
               else
                 (case do_load env fp st of
                    (Inl e, st1) \<Rightarrow> (Some e, st1)
                  | (Inr v, st1) \<Rightarrow> do_put env url v st1)))"

text \<open>The loop \<^verbatim>\<open>for i in data\<close> of \<^verbatim>\<open>upload_data\<close>, lines 194 to 203.\<close>

fun upload_docs ::
  "'w env \<Rightarrow> config \<Rightarrow> string \<Rightarrow> json list \<Rightarrow> 'w state \<Rightarrow> error option \<times> 'w state" where
  "upload_docs env self type_name [] st = (None, st)"
| "upload_docs env self type_name (i # rest) st =
     (case py_get i ''_id'' of
        Inl e \<Rightarrow> (Some e, st)
      | Inr type_id \<Rightarrow>
          (case py_get i ''_source'' of
             Inl e \<Rightarrow> (Some e, st)
           | Inr type_source \<Rightarrow>
               (case make_url (py_str env) (self_uri self)
                       [opt_str (self_index_name self), JStr type_name, type_id]
                       [(''op_type'', JStr ''create'')] of
                  Inl e \<Rightarrow> (Some e, st)
                | Inr url \<Rightarrow>
                    (case do_put env url type_source st of
                       (Some e, st') \<Rightarrow> (Some e, st')
                     | (None, st') \<Rightarrow> upload_docs env self type_name rest st'))))"

definition document_not_found :: "string \<Rightarrow> error" where
  "document_not_found type_name = IOError (''Document file of '' @ type_name @ '' does not exist.'')"

definition upload_data ::
  "'w env \<Rightarrow> config \<Rightarrow> string \<Rightarrow> 'w state \<Rightarrow> error option \<times> 'w state" where
  "upload_data env self type_name st =
     (case make_fp (self_dirname self) [opt_str (self_index_name self), JStr type_name] ''.json'' of
        Inl e \<Rightarrow> (Some e, st)
      | Inr fp \<Rightarrow>
          if \<not> path_exists env fp (world st) then (Some (document_not_found type_name), st)
          else
            (case do_load env fp st of
               (Inl e, st1) \<Rightarrow> (Some e, st1)
             | (Inr data, st1) \<Rightarrow>
                 (case py_iter data of
                    Inl e \<Rightarrow> (Some e, st1)
                  | Inr items \<Rightarrow> upload_docs env self type_name items st1)))"

text \<open>\<^verbatim>\<open>s.split(c)\<close> and, with no limit on the number of splits, \<^verbatim>\<open>s.rsplit(c)\<close>.\<close>

fun split_on :: "char \<Rightarrow> string \<Rightarrow> string list" where
  "split_on c [] = [[]]"
| "split_on c (x # xs) =
     (if x = c then [] # split_on c xs
      else (case split_on c xs of [] \<Rightarrow> [[x]] | w # ws \<Rightarrow> (x # w) # ws))"

text \<open>
  \<^verbatim>\<open>os.path.splitext\<close> of the POSIX path module: the extension starts at the last dot of
  the last path component, unless only dots come before it in that component.
\<close>

definition splitext :: "string \<Rightarrow> string \<times> string" where
  "splitext p =
     (let base = rev (takeWhile (\<lambda>c. c \<noteq> CHR ''/'') (rev p));
          stem = rev (tl (dropWhile (\<lambda>c. c \<noteq> CHR ''.'') (rev base)))
      in if CHR ''.'' \<in> set base \<and> (\<exists>c \<in> set stem. c \<noteq> CHR ''.'')
         then (take (length p - length base + length stem) p,
               drop (length p - length base + length stem) p)
         else (p, []))"

text \<open>\<^verbatim>\<open>os.path.splitext(f)[0].rsplit('.')[1]\<close>, line 223.\<close>

definition derive_type :: "string \<Rightarrow> error + string" where
  "derive_type f = seq_index (split_on CHR ''.'' (fst (splitext f))) 1"

text \<open>
  The directory scan of \<^verbatim>\<open>upload\<close>, lines 219 to 225, over the file names \<open>fs\<close> that
  \<^verbatim>\<open>os.walk\<close> reports (the uploads do not write to the local directory, so the names are
  those found when the scan starts).
\<close>

fun upload_files ::
  "'w env \<Rightarrow> config \<Rightarrow> string list \<Rightarrow> 'w state \<Rightarrow> error option \<times> 'w state" where
  "upload_files env self [] st = (None, st)"
| "upload_files env self (f # fs) st =
     (if \<not> endswith f ''.json'' then upload_files env self fs st
      else
        (case derive_type f of
           Inl e \<Rightarrow> (Some e, st)
         | Inr type_name \<Rightarrow>
             (case upload_mapping env self type_name st of
                (Some e, st1) \<Rightarrow> (Some e, st1)
              | (None, st1) \<Rightarrow>
                  (case upload_data env self type_name st1 of
                     (Some e, st2) \<Rightarrow> (Some e, st2)
                   | (None, st2) \<Rightarrow> upload_files env self fs st2))))"

definition upload ::
  "'w env \<Rightarrow> config \<Rightarrow> string option \<Rightarrow> 'w state \<Rightarrow> error option \<times> 'w state" where
  "upload env self type_name st =
     (if \<not> dir_exists env self (world st) then (Some (directory_not_found env self), st)
      else if truthy (opt_str type_name) then
        (case upload_mapping env self (the type_name) st of
           (Some e, st1) \<Rightarrow> (Some e, st1)
         | (None, st1) \<Rightarrow> upload_data env self (the type_name) st1)
      else upload_files env self (concat (walk_files env (the (self_dirname self)) (world st))) st)"

section \<open>A simulated cluster and disk\<close>

text \<open>
  A small outside world on which the program can be run: the cluster answers the requests
  of the list \<open>pending\<close> in that order, each with the body listed for it, and refuses any
  other request; the disk holds the files \<open>files\<close> (path and parsed content) and the
  directories \<open>listing\<close> (path and the names of the files in it). Every PUT is accepted.
\<close>

record sim =
  pending :: "(string \<times> json) list"
  files :: "(string \<times> json) list"
  listing :: "(string \<times> string list) list"

definition sim_get :: "string \<Rightarrow> sim \<Rightarrow> (error + json) \<times> sim" where
  "sim_get url w =
     (case pending w of
        [] \<Rightarrow> (Inl (ExternalError ''connection closed''), w)
      | (u, body) # rest \<Rightarrow>
          if u = url then (Inr body, w\<lparr>pending := rest\<rparr>)
          else (Inl (ExternalError ''unexpected request''), w))"

definition sim_load :: "string \<Rightarrow> sim \<Rightarrow> error + json" where
  "sim_load fp w =
     (case map_of (files w) fp of
        None \<Rightarrow> Inl (ExternalError ''no such file'')
      | Some v \<Rightarrow> Inr v)"

definition sim_env :: "sim env" where
  "sim_env =
     \<lparr>http_get = sim_get,
      http_put = (\<lambda>url body w. (None, w)),
      path_exists = (\<lambda>p w. p \<in> set (map fst (files w)) \<or> p \<in> set (map fst (listing w))),
      walk_files = (\<lambda>d w. case map_of (listing w) d of None \<Rightarrow> [] | Some fs \<Rightarrow> [fs]),
      open_write = (\<lambda>fp w. (None, w\<lparr>files := (fp, JNull) # files w\<rparr>)),
      json_dump = (\<lambda>fp v w. (None, w\<lparr>files := (fp, v) # files w\<rparr>)),
      json_load = sim_load,
      py_str = (\<lambda>v. ''<object>'')\<rparr>"

definition start :: "sim \<Rightarrow> sim state" where
  "start w = \<lparr>trace = [], world = w\<rparr>"

section \<open>Sample sessions\<close>

definition es :: string where
  "es = ''http://es''"

definition hit1 :: json where
  "hit1 = JObj [(''_id'', JStr ''1''), (''_source'', JObj [(''env'', JStr ''a'')])]"

definition hit2 :: json where
  "hit2 = JObj [(''_id'', JStr ''2''), (''_source'', JObj [(''env'', JStr ''b'')])]"

definition hit3 :: json where
  "hit3 = JObj [(''_id'', JStr ''3''), (''_source'', JObj [(''env'', JStr ''c'')])]"

text \<open>A response with a cursor and hits, and a response with hits only.\<close>

definition page :: "json \<Rightarrow> json list \<Rightarrow> json" where
  "page cursor hits = JObj [(''_scroll_id'', cursor), (''hits'', JObj [(''hits'', JArr hits)])]"

definition last_page :: "json list \<Rightarrow> json" where
  "last_page hits = JObj [(''hits'', JObj [(''hits'', JArr hits)])]"

definition search_request :: string where
  "search_request = ''http://es/test/data/_search?scroll=1m&search_type=scan''"

definition scroll_request :: "string \<Rightarrow> string" where
  "scroll_request c = ''http://es/_search/scroll?search_type=scan&scroll=1m&scroll_id='' @ c"

definition idle :: sim where
  "idle = \<lparr>pending = [], files = [], listing = []\<rparr>"

text \<open>
  The session of the specification's example: cursor \<open>C1\<close> and two hits, then cursor
  \<open>C2\<close> and one hit, then no cursor.
\<close>

definition session3 :: sim where
  "session3 =
     \<lparr>pending = [(search_request, page (JStr ''C1'') [hit1, hit2]),
                 (scroll_request ''C1'', page (JStr ''C2'') [hit3]),
                 (scroll_request ''C2'', last_page [])],
      files = [], listing = []\<rparr>"

text \<open>A cluster that keeps the same cursor from page to page.\<close>

definition repeating :: sim where
  "repeating =
     \<lparr>pending = [(search_request, page (JStr ''C'') []),
                 (scroll_request ''C'', page (JStr ''C'') [hit1]),
                 (scroll_request ''C'', page (JStr ''C'') [])],
      files = [], listing = []\<rparr>"

text \<open>A cluster whose first answer has no cursor.\<close>

definition cursorless :: sim where
  "cursorless = \<lparr>pending = [(search_request, last_page [hit1])], files = [], listing = []\<rparr>"

section \<open>Notions used to state the properties\<close>

text \<open>
  What a response carries: no cursor (\<^verbatim>\<open>resp.get('_scroll_id') is None\<close>), its cursor, and
  its list of hits. A response ends the scroll when it carries no cursor or no hit.
\<close>

definition no_cursor :: "json \<Rightarrow> bool" where
  "no_cursor resp = (py_get resp ''_scroll_id'' = Inr JNull)"

definition cursor_of :: "json \<Rightarrow> json" where
  "cursor_of resp = (case py_get resp ''_scroll_id'' of Inl e \<Rightarrow> JNull | Inr c \<Rightarrow> c)"

definition hit_list :: "json \<Rightarrow> json list" where
  "hit_list resp =
     (case resp_hits resp of
        Inl e \<Rightarrow> []
      | Inr hh \<Rightarrow> (case py_iter hh of Inl e \<Rightarrow> [] | Inr hs \<Rightarrow> hs))"

definition stops :: "json \<Rightarrow> bool" where
  "stops resp = (no_cursor resp \<or> hit_list resp = [])"

text \<open>
  A sequence of continuation exchanges (request URL and response) that starts from the
  cursor \<open>sid\<close>: each request is the continuation URL of the cursor in hand, the cursor in
  hand after an exchange is the one its response carries, and the sequence ends with the
  first response that stops the scroll.
\<close>

fun follows_cursors ::
  "(json \<Rightarrow> string) \<Rightarrow> string \<Rightarrow> string \<Rightarrow> json \<Rightarrow> (string \<times> json) list \<Rightarrow> bool" where
  "follows_cursors to_str u scroll sid [] = False"
| "follows_cursors to_str u scroll sid ((url, resp) # rest) =
     (scroll_url to_str u scroll sid = Inr url \<and>
      (if stops resp then rest = []
       else follows_cursors to_str u scroll (cursor_of resp) rest))"

text \<open>The trace entry of an answered GET.\<close>

definition got :: "string \<times> json \<Rightarrow> event" where
  "got x = Get (fst x) (Inr (snd x))"

text \<open>
  The cluster answers the requests of a sequence of exchanges, one after the other, with
  the listed responses, taking the outside world from \<open>w\<close> to \<open>w'\<close>; and a response whose
  \<^verbatim>\<open>resp['hits']['hits']\<close> is there and can be iterated over.
\<close>

fun served :: "'w env \<Rightarrow> 'w \<Rightarrow> (string \<times> json) list \<Rightarrow> 'w \<Rightarrow> bool" where
  "served env w [] w' = (w' = w)"
| "served env w ((url, resp) # rest) w' =
     (case http_get env url w of (r, w1) \<Rightarrow> r = Inr resp \<and> served env w1 rest w')"

definition hits_readable :: "json \<Rightarrow> bool" where
  "hits_readable resp =
     (case resp_hits resp of
        Inl e \<Rightarrow> False
      | Inr hh \<Rightarrow> (case py_iter hh of Inl e \<Rightarrow> False | Inr hs \<Rightarrow> True))"

text \<open>
  A raw mapping document, as the cluster's mapping endpoint returns it: a dictionary from
  index names to entries; each entry is a dictionary whose \<^verbatim>\<open>mappings\<close> value is the
  dictionary from the index's type keys to their definitions; and the definition of every
  type key outside the exclusion set is a dictionary. \<open>expected_records\<close> follows the
  specification's words: for each index, for each type key not in the exclusion set, the
  record of the index, the type and \<^verbatim>\<open>mappings[type].properties\<close> (\<^verbatim>\<open>None\<close> when absent).
\<close>

fun is_obj :: "json \<Rightarrow> bool" where
  "is_obj (JObj kvs) = True"
| "is_obj v = False"

definition excluded_key :: "string \<Rightarrow> bool" where
  "excluded_key k = (k = ''_default_'' \<or> k = ''_all'' \<or> k = ''properties'')"

definition type_table :: "json \<Rightarrow> (string \<times> json) list option" where
  "type_table entry =
     (case entry of
        JObj e \<Rightarrow> (case map_of e ''mappings'' of Some (JObj tys) \<Rightarrow> Some tys | _ \<Rightarrow> None)
      | _ \<Rightarrow> None)"

definition schema_of :: "json \<Rightarrow> json" where
  "schema_of tv = (case py_get tv ''properties'' of Inl e \<Rightarrow> JNull | Inr p \<Rightarrow> p)"

definition records_of_index :: "string \<Rightarrow> (string \<times> json) list \<Rightarrow> mapping_record list" where
  "records_of_index i tys =
     map (\<lambda>(m, tv). \<lparr>index = JStr i, type = JStr m, schema = schema_of tv\<rparr>)
       (filter (\<lambda>(m, tv). \<not> excluded_key m) tys)"

definition expected_records :: "(string \<times> json) list \<Rightarrow> mapping_record list" where
  "expected_records idxs =
     concat (map (\<lambda>(i, entry). case type_table entry of None \<Rightarrow> [] | Some tys \<Rightarrow> records_of_index i tys) idxs)"

definition type_table_ok :: "(string \<times> json) list \<Rightarrow> bool" where
  "type_table_ok tys =
     (distinct (map fst tys) \<and> list_all (\<lambda>(m, tv). excluded_key m \<or> is_obj tv) tys)"

definition raw_mapping_document :: "(string \<times> json) list \<Rightarrow> bool" where
  "raw_mapping_document idxs =
     (distinct (map fst idxs) \<and>
      list_all (\<lambda>(i, entry). case type_table entry of None \<Rightarrow> False | Some tys \<Rightarrow> type_table_ok tys) idxs)"


text \<open>The mapping document of the repository's tests, and the object the tests configure.\<close>

definition test_mappings :: "(string \<times> json) list" where
  "test_mappings =
     [(''test'', JObj [(''mappings'', JObj
        [(''_default_'', JObj []),
         (''_all'', JObj []),
         (''properties'', JObj []),
         (''data'', JObj [(''properties'', JObj [(''content'', JObj []), (''env'', JObj [])])])])])]"

definition ep :: config where
  "ep = \<lparr>self_uri = es, self_index_name = Some ''test'', self_dirname = Some ''/tmp/fake''\<rparr>"

definition mapping_request :: string where
  "mapping_request = ''http://es/test/_mapping''"

definition mapping_session :: sim where
  "mapping_session = \<lparr>pending = [(mapping_request, JObj test_mappings)], files = [], listing = []\<rparr>"

text \<open>
  The two URLs of a create-only PUT: \<^verbatim>\<open>{uri}/{index}/{type}/{id}?op_type=create\<close> and, with
  no id segment, \<^verbatim>\<open>{uri}/{index}/{type}?op_type=create\<close>; the id and the source of a hit
  (\<^verbatim>\<open>None\<close> when absent); a document hit, whose id is a non-empty string; and a hit
  whose id is missing or false.
\<close>

definition with_slash :: "string \<Rightarrow> string" where
  "with_slash u = (if endswith u ''/'' then u else u @ ''/'')"

definition document_url :: "string \<Rightarrow> string \<Rightarrow> string \<Rightarrow> string \<Rightarrow> string" where
  "document_url u idx ty ident = with_slash u @ idx @ ''/'' @ ty @ ''/'' @ ident @ ''?op_type=create''"

definition type_level_url :: "string \<Rightarrow> string \<Rightarrow> string \<Rightarrow> string" where
  "type_level_url u idx ty = with_slash u @ idx @ ''/'' @ ty @ ''?op_type=create''"

definition id_of :: "json \<Rightarrow> json" where
  "id_of hit = (case py_get hit ''_id'' of Inl e \<Rightarrow> JNull | Inr v \<Rightarrow> v)"

definition source_of :: "json \<Rightarrow> json" where
  "source_of hit = (case py_get hit ''_source'' of Inl e \<Rightarrow> JNull | Inr v \<Rightarrow> v)"

definition id_string :: "json \<Rightarrow> string" where
  "id_string hit = (case id_of hit of JStr s \<Rightarrow> s | _ \<Rightarrow> [])"

definition document_hit :: "json \<Rightarrow> bool" where
  "document_hit hit = (is_obj hit \<and> (case id_of hit of JStr s \<Rightarrow> s \<noteq> [] | _ \<Rightarrow> False))"

definition hit_without_id :: "json \<Rightarrow> bool" where
  "hit_without_id hit = (is_obj hit \<and> \<not> truthy (id_of hit))"

definition put_url :: "string \<Rightarrow> string \<Rightarrow> string \<Rightarrow> json \<Rightarrow> string" where
  "put_url u idx ty hit =
     (if hit_without_id hit then type_level_url u idx ty else document_url u idx ty (id_string hit))"


text \<open>Files and sessions for the importer and the exporter.\<close>

definition documents_file :: string where
  "documents_file = ''/tmp/fake/test.data.json''"

definition bare_hit :: json where
  "bare_hit = JObj [(''_index'', JStr ''test'')]"

definition upload_session :: sim where
  "upload_session =
     \<lparr>pending = [], files = [(documents_file, JArr [hit1, hit2, hit1])],
      listing = [(''/tmp/fake'', [''test.data.json''])]\<rparr>"

definition idless_session :: sim where
  "idless_session =
     \<lparr>pending = [], files = [(documents_file, JArr [bare_hit, hit3])],
      listing = [(''/tmp/fake'', [''test.data.json''])]\<rparr>"

definition export_session :: sim where
  "export_session =
     \<lparr>pending = [(mapping_request, JObj test_mappings),
                 (mapping_request, JObj test_mappings),
                 (search_request, page (JStr ''C1'') []),
                 (scroll_request ''C1'', page (JStr ''C2'') [hit1, hit2]),
                 (scroll_request ''C2'', page (JStr ''C2'') [])],
      files = [], listing = [(''/tmp/fake'', [])]\<rparr>"

definition no_mapping_session :: sim where
  "no_mapping_session = \<lparr>pending = [(mapping_request, JObj [])], files = [], listing = []\<rparr>"

definition dated :: config where
  "dated = \<lparr>self_uri = es, self_index_name = Some ''logs-2015.09'', self_dirname = Some ''/tmp/fake''\<rparr>"

definition dated_dump :: sim where
  "dated_dump =
     \<lparr>pending = [],
      files = [(''/tmp/fake/logs-2015.09.data.mapping.json'', JObj [(''properties'', JObj [])]),
               (''/tmp/fake/logs-2015.09.data.json'', JArr [hit1])],
      listing = [(''/tmp/fake'', [''logs-2015.09.data.mapping.json'', ''logs-2015.09.data.json''])]\<rparr>"

definition mapping_file :: string where
  "mapping_file = ''/tmp/fake/test.data.mapping.json''"

text \<open>
  A disk on which the files \<open>locked\<close> cannot be opened for writing and the files \<open>full\<close>
  cannot be written; a cluster that stops answering after the initial search; and the
  record of the tests' type.
\<close>

definition faulty :: "string list \<Rightarrow> string list \<Rightarrow> sim env" where
  "faulty locked full =
     sim_env
       \<lparr>open_write := (\<lambda>fp w. if fp \<in> set locked then (Some (ExternalError ''permission denied''), w)
                               else (None, w\<lparr>files := (fp, JNull) # files w\<rparr>)),
        json_dump := (\<lambda>fp v w. if fp \<in> set full then (Some (ExternalError ''disk full''), w)
                                else (None, w\<lparr>files := (fp, v) # files w\<rparr>))\<rparr>"

definition cut_off :: sim where
  "cut_off =
     \<lparr>pending = [(mapping_request, JObj test_mappings),
                 (mapping_request, JObj test_mappings),
                 (search_request, page (JStr ''C1'') [])],
      files = [], listing = [(''/tmp/fake'', [])]\<rparr>"

definition data_record :: mapping_record where
  "data_record =
     \<lparr>index = JStr ''test'', type = JStr ''data'',
      schema = JObj [(''content'', JObj []), (''env'', JObj [])]\<rparr>"

section \<open>Properties of the path builder\<close>

lemma strip_dots_id: "CHR ''.'' \<notin> set s \<Longrightarrow> strip_dots s = s"
proof -
  assume a: "CHR ''.'' \<notin> set s"
  have 1: "dropWhile (\<lambda>c. c = CHR ''.'') s = s"
    using a by (cases s) auto
  have 2: "dropWhile (\<lambda>c. c = CHR ''.'') (rev s) = rev s"
    using a by (cases "rev s") (auto simp: dropWhile_eq_Cons_conv dest: arg_cong [where f = set])
  show ?thesis by (simp add: strip_dots_def 1 2)
qed

lemma path_join_prefix:
  "b \<noteq> [] \<Longrightarrow> hd b \<noteq> CHR ''/'' \<Longrightarrow>
   path_join a b = (if a = [] \<or> endswith a ''/'' then a else a @ ''/'') @ b"
  by (cases b) (auto simp: path_join_def startswith_def)

lemma dot_split_unique:
  "CHR ''.'' \<notin> set a \<Longrightarrow> CHR ''.'' \<notin> set a' \<Longrightarrow>
   a @ CHR ''.'' # b = a' @ CHR ''.'' # b' \<Longrightarrow> a = a' \<and> b = b'"
proof -
  assume a: "CHR ''.'' \<notin> set a" and a': "CHR ''.'' \<notin> set a'"
    and eq: "a @ CHR ''.'' # b = a' @ CHR ''.'' # b'"
  have t: "takeWhile (\<lambda>c. c \<noteq> CHR ''.'') (x @ CHR ''.'' # y) = x" if "CHR ''.'' \<notin> set x" for x y
    using that by (induction x) auto
  have "a = a'"
    using arg_cong [OF eq, of "takeWhile (\<lambda>c. c \<noteq> CHR ''.'')"] a a' by (simp add: t)
  with eq show ?thesis by simp
qed

lemma file_of_document:
  assumes "idx \<noteq> []" "ty \<noteq> []" "CHR ''.'' \<notin> set idx" "CHR ''.'' \<notin> set ty" "hd idx \<noteq> CHR ''/''"
  shows "file_of dir idx ty Document =
           Inr ((if dir = [] \<or> endswith dir ''/'' then dir else dir @ ''/'')
                @ idx @ CHR ''.'' # ty @ ''.json'')"
proof -
  have "hd (idx @ CHR ''.'' # ty) \<noteq> CHR ''/''" using assms by simp
  then show ?thesis
    using assms by (simp add: file_of_def make_fp_def strip_dots_id path_join_prefix)
qed

lemma file_of_mapping:
  assumes "idx \<noteq> []" "ty \<noteq> []" "CHR ''.'' \<notin> set idx" "CHR ''.'' \<notin> set ty" "hd idx \<noteq> CHR ''/''"
  shows "file_of dir idx ty Mapping =
           Inr ((if dir = [] \<or> endswith dir ''/'' then dir else dir @ ''/'')
                @ idx @ CHR ''.'' # (ty @ ''.mapping'') @ ''.json'')"
proof -
  have "hd (idx @ CHR ''.'' # ty @ ''.mapping'') \<noteq> CHR ''/''" using assms by simp
  then show ?thesis
    using assms by (simp add: file_of_def make_fp_def strip_dots_id path_join_prefix)
qed

text \<open>
  C5 (as stated): the paths of two distinct triples of index, type and kind under one
  directory are distinct. It fails: the mapping file of type \<open>b\<close> of index \<open>a\<close> and the
  document file of type \<open>mapping\<close> of index \<open>a.b\<close> are the same file.
\<close>

theorem make_fp_not_injective:
  "file_of ''d'' ''a'' ''b'' Mapping = file_of ''d'' ''a.b'' ''mapping'' Document
   \<and> file_of ''d'' ''a'' ''b'' Mapping = Inr ''d/a.b.mapping.json''
   \<and> (''a'', ''b'', Mapping) \<noteq> (''a.b'', ''mapping'', Document)"
  by (simp add: file_of_def make_fp_def strip_dots_def path_join_def startswith_def endswith_def)

text \<open>
  C5 (amended): for index and type names that are not empty and contain no dot, the index
  name not beginning with a slash, the path builder is injective on index, type and kind:
  equal paths under one directory come from equal triples.
\<close>

theorem make_fp_injective_dotfree:
  assumes "idx \<noteq> []" "ty \<noteq> []" "CHR ''.'' \<notin> set idx" "CHR ''.'' \<notin> set ty" "hd idx \<noteq> CHR ''/''"
    and "idx' \<noteq> []" "ty' \<noteq> []" "CHR ''.'' \<notin> set idx'" "CHR ''.'' \<notin> set ty'" "hd idx' \<noteq> CHR ''/''"
    and eq: "file_of dir idx ty k = file_of dir idx' ty' k'"
  shows "idx = idx' \<and> ty = ty' \<and> k = k'"
proof -
  have D: "idx = idx' \<and> ty = ty'" if "file_of dir idx ty Document = file_of dir idx' ty' Document"
  proof -
    from that have "idx @ CHR ''.'' # ty = idx' @ CHR ''.'' # ty'"
      using assms(1-10) by (simp add: file_of_document)
    then show ?thesis
      using dot_split_unique assms(3,8) by blast
  qed
  have M: "idx = idx' \<and> ty = ty'" if "file_of dir idx ty Mapping = file_of dir idx' ty' Mapping"
  proof -
    from that have "idx @ CHR ''.'' # ty = idx' @ CHR ''.'' # ty'"
      using assms(1-10) by (simp add: file_of_mapping)
    then show ?thesis
      using dot_split_unique assms(3,8) by blast
  qed
  have X: "file_of dir idx ty Mapping \<noteq> file_of dir idx' ty' Document"
  proof
    assume "file_of dir idx ty Mapping = file_of dir idx' ty' Document"
    then have "idx @ CHR ''.'' # (ty @ ''.mapping'') = idx' @ CHR ''.'' # ty'"
      using assms(1-10) by (simp add: file_of_mapping file_of_document)
    then have "ty @ ''.mapping'' = ty'"
      using dot_split_unique assms(3,8) by blast
    then have "CHR ''.'' \<in> set ty'" by auto
    then show False using assms(9) by simp
  qed
  have Y: "file_of dir idx ty Document \<noteq> file_of dir idx' ty' Mapping"
  proof
    assume "file_of dir idx ty Document = file_of dir idx' ty' Mapping"
    then have "idx @ CHR ''.'' # ty = idx' @ CHR ''.'' # (ty' @ ''.mapping'')"
      using assms(1-10) by (simp add: file_of_mapping file_of_document)
    then have "ty = ty' @ ''.mapping''"
      using dot_split_unique assms(3,8) by blast
    then have "CHR ''.'' \<in> set ty" by auto
    then show False using assms(4) by simp
  qed
  show ?thesis
    using eq D M X Y by (cases k; cases k') auto
qed

theorem make_fp_injective_dotfree_witness:
  "file_of ''d'' ''test'' ''data'' Mapping = Inr ''d/test.data.mapping.json''
   \<and> file_of ''d'' ''test'' ''data'' Document = Inr ''d/test.data.json''
   \<and> file_of ''d'' ''test'' ''data'' Mapping \<noteq> file_of ''d'' ''test'' ''data'' Document"
proof -
  have names: "''test'' \<noteq> []" "''data'' \<noteq> []" "CHR ''.'' \<notin> set ''test''"
    "CHR ''.'' \<notin> set ''data''" "hd ''test'' \<noteq> CHR ''/''"
    by simp_all
  have paths: "file_of ''d'' ''test'' ''data'' Mapping = Inr ''d/test.data.mapping.json''"
    "file_of ''d'' ''test'' ''data'' Document = Inr ''d/test.data.json''"
    by (simp_all add: file_of_def make_fp_def strip_dots_def path_join_def startswith_def
        endswith_def)
  have "file_of ''d'' ''test'' ''data'' Mapping \<noteq> file_of ''d'' ''test'' ''data'' Document"
    using make_fp_injective_dotfree [OF names names, of "''d''" Mapping Document] by auto
  with paths show ?thesis by simp
qed

section \<open>Properties of the scroll reader\<close>

lemma py_iter_empty: "py_iter hh = Inr hs \<Longrightarrow> (\<not> truthy hh) = (hs = [])"
  by (cases hh) auto

lemma getitem_object: "py_getitem v (JStr k) = Inr x \<Longrightarrow> \<exists>kvs. v = JObj kvs"
  by (cases v) auto

lemma resp_hits_object: "resp_hits resp = Inr hh \<Longrightarrow> \<exists>kvs. resp = JObj kvs"
  by (auto simp: resp_hits_def split: sum.splits dest: getitem_object)

lemma state_eqI: "trace (a :: 'w state) = trace b \<Longrightarrow> world a = world b \<Longrightarrow> a = b"
  by simp

lemma scroll_loop_returns:
  "follows_cursors (py_str env) u scroll sid xs \<Longrightarrow> served env (world st) xs w' \<Longrightarrow>
   list_all (\<lambda>x. hits_readable (snd x)) xs \<Longrightarrow> length xs \<le> fuel \<Longrightarrow>
   scroll_loop env u scroll fuel sid st =
     Some ((concat (map (\<lambda>x. hit_list (snd x)) xs), None),
           \<lparr>trace = trace st @ map got xs, world = w'\<rparr>)"
proof (induction xs arbitrary: sid st fuel)
  case Nil
  then show ?case by simp
next
  case (Cons x rest)
  obtain url resp where x: "x = (url, resp)" by (cases x)
  from Cons.prems(4) obtain n where fuel: "fuel = Suc n" and n: "length rest \<le> n"
    by (cases fuel) auto
  from Cons.prems(1) have url: "scroll_url (py_str env) u scroll sid = Inr url"
    by (simp add: x)
  from Cons.prems(2) obtain w1 where get: "http_get env url (world st) = (Inr resp, w1)"
    and rest: "served env w1 rest w'"
    by (auto simp: x split: prod.splits)
  let ?st1 = "\<lparr>trace = trace st @ [Get url (Inr resp)], world = w1\<rparr>"
  have g: "do_get env url st = (Inr resp, ?st1)"
    by (simp add: do_get_def get)
  from Cons.prems(3) obtain hh hits where hh: "resp_hits resp = Inr hh" and hits: "py_iter hh = Inr hits"
    by (auto simp: x hits_readable_def split: sum.splits)
  from resp_hits_object [OF hh] obtain kvs where obj: "resp = JObj kvs" by blast
  then obtain c where c: "py_get resp ''_scroll_id'' = Inr c" by simp
  have hl: "hit_list resp = hits" by (simp add: hit_list_def hh hits)
  have st: "stops resp = (c = JNull \<or> \<not> truthy hh)"
    using py_iter_empty [OF hits] by (simp add: stops_def no_cursor_def c hl)
  show ?case
  proof (cases "stops resp")
    case True
    with Cons.prems(1) have "rest = []" by (simp add: x)
    with rest have "w' = w1" by simp
    then show ?thesis
      using True st url g hh hits c hl \<open>rest = []\<close> by (simp add: fuel x got_def)
  next
    case False
    with Cons.prems(1) have fc: "follows_cursors (py_str env) u scroll c rest"
      by (simp add: x cursor_of_def c)
    from Cons.prems(3) have rd: "list_all (\<lambda>x. hits_readable (snd x)) rest" by simp
    have "scroll_loop env u scroll n c ?st1 =
            Some ((concat (map (\<lambda>x. hit_list (snd x)) rest), None),
                  \<lparr>trace = trace ?st1 @ map got rest, world = w'\<rparr>)"
      using Cons.IH [OF fc _ rd n, of ?st1] rest by simp
    then show ?thesis
      using False st url g hh hits c hl by (simp add: fuel x got_def)
  qed
qed

lemma scroll_loop_chain:
  "scroll_loop env u scroll fuel sid st = Some ((hs, None), st') \<Longrightarrow>
   \<exists>xs. length xs \<le> fuel
       \<and> follows_cursors (py_str env) u scroll sid xs
       \<and> served env (world st) xs (world st')
       \<and> list_all (\<lambda>x. hits_readable (snd x)) xs
       \<and> trace st' = trace st @ map got xs
       \<and> hs = concat (map (\<lambda>x. hit_list (snd x)) xs)"
proof (induction fuel arbitrary: sid st hs st')
  case 0
  then show ?case by simp
next
  case (Suc n)
  from Suc.prems obtain url where url: "scroll_url (py_str env) u scroll sid = Inr url"
    by (auto split: sum.splits)
  from Suc.prems url obtain resp st1 where g: "do_get env url st = (Inr resp, st1)"
    by (auto split: sum.splits prod.splits)
  from Suc.prems url g obtain hh where hh: "resp_hits resp = Inr hh"
    by (auto split: sum.splits)
  from Suc.prems url g hh obtain hits where hits: "py_iter hh = Inr hits"
    by (auto split: sum.splits)
  from Suc.prems url g hh hits obtain c where c: "py_get resp ''_scroll_id'' = Inr c"
    by (auto split: sum.splits)
  have tr: "trace st1 = trace st @ [got (url, resp)]"
    using g by (auto simp: do_get_def got_def split: prod.splits)
  have get: "http_get env url (world st) = (Inr resp, world st1)"
    using g by (auto simp: do_get_def split: prod.splits)
  have hl: "hit_list resp = hits" by (simp add: hit_list_def hh hits)
  have rd: "hits_readable resp" by (simp add: hits_readable_def hh hits)
  have st: "stops resp = (c = JNull \<or> \<not> truthy hh)"
    using py_iter_empty [OF hits] by (simp add: stops_def no_cursor_def c hl)
  show ?case
  proof (cases "stops resp")
    case True
    with Suc.prems url g hh hits c st have "hs = hits" "st' = st1" by auto
    then show ?thesis
      using True url tr hl get rd by (intro exI [of _ "[(url, resp)]"]) simp
  next
    case False
    with Suc.prems url g hh hits c st obtain later where
      rec: "scroll_loop env u scroll n c st1 = Some ((later, None), st')" and hs: "hs = hits @ later"
      by (auto split: option.splits prod.splits)
    from Suc.IH [OF rec] obtain xs where
      xs: "length xs \<le> n" "follows_cursors (py_str env) u scroll c xs"
          "served env (world st1) xs (world st')" "list_all (\<lambda>x. hits_readable (snd x)) xs"
          "trace st' = trace st1 @ map got xs"
          "later = concat (map (\<lambda>x. hit_list (snd x)) xs)" by blast
    show ?thesis
      using False url tr hl xs hs c get rd
      by (intro exI [of _ "(url, resp) # xs"]) (simp add: cursor_of_def)
  qed
qed

lemmas run_simps =
  scroll_data_def search_url_def scroll_url_def make_url_def join_values_def endswith_def
  format_value_def do_get_def sim_env_def sim_get_def start_def resp_hits_def

lemmas session_simps =
  es_def page_def last_page_def search_request_def scroll_request_def idle_def

text \<open>
  C9: when the initial search response carries no scroll cursor (the key is missing or its
  value is \<^verbatim>\<open>null\<close>), \<^verbatim>\<open>scroll_data\<close> yields nothing and returns without an exception;
  the initial search is the only request it issues, whatever number of continuation
  requests it is allowed.
\<close>

theorem scroll_no_cursor:
  assumes "search_url (py_str env) u idx ty scroll = Inr url"
    and "http_get env url (world st) = (Inr (JObj resp), w')"
    and "map_of resp ''_scroll_id'' = None \<or> map_of resp ''_scroll_id'' = Some JNull"
  shows "scroll_data env u idx ty scroll fuel st =
           Some (([], None), \<lparr>trace = trace st @ [Get url (Inr (JObj resp))], world = w'\<rparr>)"
  using assms by (auto simp: scroll_data_def do_get_def)


theorem scroll_no_cursor_witness:
  "scroll_data sim_env es (JStr ''test'') (JStr ''data'') ''1m'' 0 (start cursorless) =
     Some (([], None), \<lparr>trace = [Get search_request (Inr (last_page [hit1]))], world = idle\<rparr>)"
proof -
  have 1: "search_url (py_str sim_env) es (JStr ''test'') (JStr ''data'') ''1m'' = Inr search_request"
    by (simp add: run_simps session_simps)
  have 2: "http_get sim_env search_request (world (start cursorless)) =
             (Inr (JObj [(''hits'', JObj [(''hits'', JArr [hit1])])]), idle)"
    by (simp add: run_simps session_simps cursorless_def)
  have 3: "map_of [(''hits'', JObj [(''hits'', JArr [hit1])])] ''_scroll_id'' = None
           \<or> map_of [(''hits'', JObj [(''hits'', JArr [hit1])])] ''_scroll_id'' = Some JNull"
    by simp
  show ?thesis
    using scroll_no_cursor [OF 1 2 3, of 0] by (simp add: start_def last_page_def)
qed

text \<open>
  C1 (as stated): with cursor \<open>C1\<close> and two hits in the initial response, cursor \<open>C2\<close>
  and one hit in the response requested with \<open>C1\<close>, and no cursor in the response
  requested with \<open>C2\<close>, the scroll yields the three hits. It fails: the hits of the initial
  response are never read, and the session yields the one hit of the second response only.
\<close>

theorem scroll_skips_initial_hits:
  "scroll_data sim_env es (JStr ''test'') (JStr ''data'') ''1m'' (Suc (Suc 0)) (start session3) =
     Some (([hit3], None),
           \<lparr>trace = [Get search_request (Inr (page (JStr ''C1'') [hit1, hit2])),
                     Get (scroll_request ''C1'') (Inr (page (JStr ''C2'') [hit3])),
                     Get (scroll_request ''C2'') (Inr (last_page []))],
            world = idle\<rparr>)
   \<and> [hit3] \<noteq> [hit1, hit2, hit3]"
  by (simp add: run_simps session_simps session3_def)


text \<open>
  C1 (amended): in such a session the scroll yields the hits of the continuation responses
  only, in the order the server returned them: the one hit of the response requested with
  \<open>C1\<close>, followed by the hits, if any, of the response requested with \<open>C2\<close>; then it
  terminates, having issued these three requests. The hits of the initial response are not
  yielded.
\<close>

theorem scroll_three_responses:
  assumes "search_url (py_str env) u idx ty scroll = Inr url0"
    and "http_get env url0 (world st) = (Inr (JObj resp1), w1)"
    and "map_of resp1 ''_scroll_id'' = Some (JStr c1)"
    and "scroll_url (py_str env) u scroll (JStr c1) = Inr url1"
    and "http_get env url1 w1 = (Inr (JObj resp2), w2)"
    and "map_of resp2 ''_scroll_id'' = Some (JStr c2)"
    and "resp_hits (JObj resp2) = Inr (JArr [h])"
    and "scroll_url (py_str env) u scroll (JStr c2) = Inr url2"
    and "http_get env url2 w2 = (Inr (JObj resp3), w3)"
    and "map_of resp3 ''_scroll_id'' = None \<or> map_of resp3 ''_scroll_id'' = Some JNull"
    and "resp_hits (JObj resp3) = Inr (JArr hs3)"
  shows "scroll_data env u idx ty scroll (Suc (Suc n)) st =
           Some ((h # hs3, None),
                 \<lparr>trace = trace st @ [Get url0 (Inr (JObj resp1)), Get url1 (Inr (JObj resp2)),
                                      Get url2 (Inr (JObj resp3))],
                  world = w3\<rparr>)"
  using assms by (auto simp: scroll_data_def do_get_def)


theorem scroll_three_responses_witness:
  "scroll_data sim_env es (JStr ''test'') (JStr ''data'') ''1m'' (Suc (Suc 0)) (start session3) =
     Some (([hit3], None),
           \<lparr>trace = [Get search_request (Inr (page (JStr ''C1'') [hit1, hit2])),
                     Get (scroll_request ''C1'') (Inr (page (JStr ''C2'') [hit3])),
                     Get (scroll_request ''C2'') (Inr (last_page []))],
            world = idle\<rparr>)"
proof -
  let ?w1 = "\<lparr>pending = [(scroll_request ''C1'', page (JStr ''C2'') [hit3]),
                         (scroll_request ''C2'', last_page [])], files = [], listing = []\<rparr>"
  let ?w2 = "\<lparr>pending = [(scroll_request ''C2'', last_page [])], files = [], listing = []\<rparr>"
  let ?r1 = "[(''_scroll_id'', JStr ''C1''), (''hits'', JObj [(''hits'', JArr [hit1, hit2])])]"
  let ?r2 = "[(''_scroll_id'', JStr ''C2''), (''hits'', JObj [(''hits'', JArr [hit3])])]"
  let ?r3 = "[(''hits'', JObj [(''hits'', JArr [])])]"
  have 1: "search_url (py_str sim_env) es (JStr ''test'') (JStr ''data'') ''1m'' = Inr search_request"
    by (simp add: run_simps session_simps)
  have 2: "http_get sim_env search_request (world (start session3)) = (Inr (JObj ?r1), ?w1)"
    by (simp add: run_simps session_simps session3_def)
  have 3: "map_of ?r1 ''_scroll_id'' = Some (JStr ''C1'')" by simp
  have 4: "scroll_url (py_str sim_env) es ''1m'' (JStr ''C1'') = Inr (scroll_request ''C1'')"
    by (simp add: run_simps session_simps)
  have 5: "http_get sim_env (scroll_request ''C1'') ?w1 = (Inr (JObj ?r2), ?w2)"
    by (simp add: run_simps session_simps)
  have 6: "map_of ?r2 ''_scroll_id'' = Some (JStr ''C2'')" by simp
  have 7: "resp_hits (JObj ?r2) = Inr (JArr [hit3])" by (simp add: resp_hits_def)
  have 8: "scroll_url (py_str sim_env) es ''1m'' (JStr ''C2'') = Inr (scroll_request ''C2'')"
    by (simp add: run_simps session_simps)
  have 9: "http_get sim_env (scroll_request ''C2'') ?w2 = (Inr (JObj ?r3), idle)"
    by (simp add: run_simps session_simps)
  have 10: "map_of ?r3 ''_scroll_id'' = None \<or> map_of ?r3 ''_scroll_id'' = Some JNull" by simp
  have 11: "resp_hits (JObj ?r3) = Inr (JArr [])" by (simp add: resp_hits_def)
  show ?thesis
    using scroll_three_responses [OF 1 2 3 4 5 6 7 8 9 10 11, of 0]
    by (simp add: start_def page_def last_page_def)
qed

text \<open>
  C2 (as stated): every continuation request uses the cursor of the response before it, so
  that no cursor is ever sent in two requests. The second part fails: the program sends
  whatever cursor the last response carried, and a cluster that returns the same cursor
  again gets it again. Here the cursor \<open>C\<close> is sent in two requests.
\<close>

theorem scroll_repeats_cursor:
  "scroll_data sim_env es (JStr ''test'') (JStr ''data'') ''1m'' (Suc (Suc 0)) (start repeating) =
     Some (([hit1], None),
           \<lparr>trace = [Get search_request (Inr (page (JStr ''C'') [])),
                     Get (scroll_request ''C'') (Inr (page (JStr ''C'') [hit1])),
                     Get (scroll_request ''C'') (Inr (page (JStr ''C'') []))],
            world = idle\<rparr>)"
  by (simp add: run_simps session_simps repeating_def)


text \<open>
  C2 (amended): a scroll session returns without an exception exactly when the cluster
  answers the initial search with an object and then, if that object carries a cursor,
  answers a sequence of continuation requests of which each is built from the cursor carried
  by the response immediately before it (the initial response for the first one; a cursor is
  sent again whenever the cluster returns it again), up to and including the first
  continuation response that carries no cursor or whose hit list is empty. The continuation
  loop ends with that response, not before and not later: as soon as the number of
  continuation requests allowed covers the sequence, \<^verbatim>\<open>scroll_data\<close> returns, having issued
  exactly these requests and yielded the hits of the continuation responses in order.
\<close>

theorem scroll_follows_cursors:
  "scroll_data env u idx ty scroll fuel st = Some ((hs, None), st') \<longleftrightarrow>
     (\<exists>url0 resp0 w0 xs.
         search_url (py_str env) u idx ty scroll = Inr url0
       \<and> http_get env url0 (world st) = (Inr resp0, w0)
       \<and> is_obj resp0
       \<and> (if no_cursor resp0 then xs = [] \<and> world st' = w0
          else length xs \<le> fuel
             \<and> follows_cursors (py_str env) u scroll (cursor_of resp0) xs
             \<and> served env w0 xs (world st')
             \<and> list_all (\<lambda>x. hits_readable (snd x)) xs)
       \<and> trace st' = trace st @ got (url0, resp0) # map got xs
       \<and> hs = concat (map (\<lambda>x. hit_list (snd x)) xs))"
  (is "?L \<longleftrightarrow> ?R")
proof
  assume L: ?L
  from L obtain url0 where url0: "search_url (py_str env) u idx ty scroll = Inr url0"
    by (auto simp: scroll_data_def split: sum.splits)
  from L url0 obtain resp0 st0 where g: "do_get env url0 st = (Inr resp0, st0)"
    by (auto simp: scroll_data_def split: sum.splits prod.splits)
  from L url0 g obtain c where c: "py_get resp0 ''_scroll_id'' = Inr c"
    by (auto simp: scroll_data_def split: sum.splits)
  then have obj: "is_obj resp0" by (cases resp0) auto
  have tr: "trace st0 = trace st @ [got (url0, resp0)]"
    using g by (auto simp: do_get_def got_def split: prod.splits)
  have get: "http_get env url0 (world st) = (Inr resp0, world st0)"
    using g by (auto simp: do_get_def split: prod.splits)
  show ?R
  proof (cases "c = JNull")
    case True
    with L url0 g c have "hs = []" "st' = st0" by (auto simp: scroll_data_def)
    then show ?thesis
      using True url0 tr c get obj
      by (intro exI [of _ url0] exI [of _ resp0] exI [of _ "world st0"] exI [of _ "[]"])
         (simp add: no_cursor_def)
  next
    case False
    with L url0 g c have "scroll_loop env u scroll fuel c st0 = Some ((hs, None), st')"
      by (auto simp: scroll_data_def)
    from scroll_loop_chain [OF this] obtain xs where
      xs: "length xs \<le> fuel" "follows_cursors (py_str env) u scroll c xs"
          "served env (world st0) xs (world st')" "list_all (\<lambda>x. hits_readable (snd x)) xs"
          "trace st' = trace st0 @ map got xs"
          "hs = concat (map (\<lambda>x. hit_list (snd x)) xs)" by blast
    show ?thesis
      using False url0 tr c xs get obj
      by (intro exI [of _ url0] exI [of _ resp0] exI [of _ "world st0"] exI [of _ xs])
         (simp add: no_cursor_def cursor_of_def)
  qed
next
  assume ?R
  then obtain url0 resp0 w0 xs where
    url0: "search_url (py_str env) u idx ty scroll = Inr url0"
    and get: "http_get env url0 (world st) = (Inr resp0, w0)"
    and obj: "is_obj resp0"
    and ch: "if no_cursor resp0 then xs = [] \<and> world st' = w0
             else length xs \<le> fuel
                \<and> follows_cursors (py_str env) u scroll (cursor_of resp0) xs
                \<and> served env w0 xs (world st')
                \<and> list_all (\<lambda>x. hits_readable (snd x)) xs"
    and tr: "trace st' = trace st @ got (url0, resp0) # map got xs"
    and hs: "hs = concat (map (\<lambda>x. hit_list (snd x)) xs)"
    by blast
  let ?st0 = "\<lparr>trace = trace st @ [Get url0 (Inr resp0)], world = w0\<rparr>"
  have g: "do_get env url0 st = (Inr resp0, ?st0)"
    by (simp add: do_get_def get)
  from obj obtain kvs where resp0: "resp0 = JObj kvs" by (cases resp0) auto
  then obtain c where c: "py_get resp0 ''_scroll_id'' = Inr c" by simp
  show ?L
  proof (cases "no_cursor resp0")
    case True
    with ch have "xs = []" "world st' = w0" by simp_all
    with tr have "st' = ?st0" by (intro state_eqI) (simp_all add: got_def)
    then show ?thesis
      using True url0 g c hs \<open>xs = []\<close> by (simp add: scroll_data_def no_cursor_def)
  next
    case False
    with ch have xs: "length xs \<le> fuel" "follows_cursors (py_str env) u scroll (cursor_of resp0) xs"
      "served env w0 xs (world st')" "list_all (\<lambda>x. hits_readable (snd x)) xs" by simp_all
    have "scroll_loop env u scroll fuel (cursor_of resp0) ?st0 =
            Some ((concat (map (\<lambda>x. hit_list (snd x)) xs), None),
                  \<lparr>trace = trace ?st0 @ map got xs, world = world st'\<rparr>)"
      using scroll_loop_returns [OF xs(2) _ xs(4) xs(1), of ?st0 "world st'"] xs(3) by simp
    moreover have "st' = \<lparr>trace = trace ?st0 @ map got xs, world = world st'\<rparr>"
      using tr by (intro state_eqI) (simp_all add: got_def)
    ultimately show ?thesis
      using False url0 g c hs by (simp add: scroll_data_def no_cursor_def cursor_of_def)
  qed
qed

theorem scroll_follows_cursors_witness:
  "scroll_data sim_env es (JStr ''test'') (JStr ''data'') ''1m'' (Suc (Suc (Suc 0))) (start repeating) =
     Some (([hit1], None),
           \<lparr>trace = [Get search_request (Inr (page (JStr ''C'') [])),
                     Get (scroll_request ''C'') (Inr (page (JStr ''C'') [hit1])),
                     Get (scroll_request ''C'') (Inr (page (JStr ''C'') []))],
            world = idle\<rparr>)"
proof -
  let ?xs = "[(scroll_request ''C'', page (JStr ''C'') [hit1]),
              (scroll_request ''C'', page (JStr ''C'') [])]"
  let ?w0 = "\<lparr>pending = [(scroll_request ''C'', page (JStr ''C'') [hit1]),
                         (scroll_request ''C'', page (JStr ''C'') [])],
              files = [], listing = []\<rparr>"
  let ?st' = "\<lparr>trace = [Get search_request (Inr (page (JStr ''C'') [])),
                      Get (scroll_request ''C'') (Inr (page (JStr ''C'') [hit1])),
                      Get (scroll_request ''C'') (Inr (page (JStr ''C'') []))],
               world = idle\<rparr>"
  have 1: "search_url (py_str sim_env) es (JStr ''test'') (JStr ''data'') ''1m'' = Inr search_request"
    by (simp add: run_simps session_simps)
  have 2: "http_get sim_env search_request (world (start repeating)) = (Inr (page (JStr ''C'') []), ?w0)"
    by (simp add: run_simps session_simps repeating_def)
  have 3: "is_obj (page (JStr ''C'') [])" "\<not> no_cursor (page (JStr ''C'') [])"
    "cursor_of (page (JStr ''C'') []) = JStr ''C''"
    by (simp_all add: page_def no_cursor_def cursor_of_def)
  have 4: "follows_cursors (py_str sim_env) es ''1m'' (JStr ''C'') ?xs"
    by (simp add: run_simps session_simps stops_def no_cursor_def hit_list_def cursor_of_def)
  have 5: "served sim_env ?w0 ?xs (world ?st')"
    by (simp add: run_simps session_simps)
  have 6: "list_all (\<lambda>x. hits_readable (snd x)) ?xs"
    by (simp add: hits_readable_def resp_hits_def page_def)
  have 7: "trace ?st' = trace (start repeating) @ got (search_request, page (JStr ''C'') []) # map got ?xs"
    by (simp add: start_def got_def)
  have 8: "[hit1] = concat (map (\<lambda>x. hit_list (snd x)) ?xs)"
    by (simp add: hit_list_def resp_hits_def page_def)
  have 9: "length ?xs \<le> Suc (Suc (Suc 0))" by simp
  have "\<exists>url0 resp0 w0 xs.
         search_url (py_str sim_env) es (JStr ''test'') (JStr ''data'') ''1m'' = Inr url0
       \<and> http_get sim_env url0 (world (start repeating)) = (Inr resp0, w0)
       \<and> is_obj resp0
       \<and> (if no_cursor resp0 then xs = [] \<and> world ?st' = w0
          else length xs \<le> Suc (Suc (Suc 0))
             \<and> follows_cursors (py_str sim_env) es ''1m'' (cursor_of resp0) xs
             \<and> served sim_env w0 xs (world ?st')
             \<and> list_all (\<lambda>x. hits_readable (snd x)) xs)
       \<and> trace ?st' = trace (start repeating) @ got (url0, resp0) # map got xs
       \<and> [hit1] = concat (map (\<lambda>x. hit_list (snd x)) xs)"
  proof (intro exI conjI)
    show "search_url (py_str sim_env) es (JStr ''test'') (JStr ''data'') ''1m'' = Inr search_request"
      by (rule 1)
    show "http_get sim_env search_request (world (start repeating)) = (Inr (page (JStr ''C'') []), ?w0)"
      by (rule 2)
    show "is_obj (page (JStr ''C'') [])" by (rule 3)
    show "if no_cursor (page (JStr ''C'') []) then ?xs = [] \<and> world ?st' = ?w0
          else length ?xs \<le> Suc (Suc (Suc 0))
             \<and> follows_cursors (py_str sim_env) es ''1m'' (cursor_of (page (JStr ''C'') [])) ?xs
             \<and> served sim_env ?w0 ?xs (world ?st')
             \<and> list_all (\<lambda>x. hits_readable (snd x)) ?xs"
      unfolding if_not_P [OF 3(2)] 3(3) using 4 5 6 9 by blast
    show "trace ?st' = trace (start repeating) @ got (search_request, page (JStr ''C'') []) # map got ?xs"
      by (rule 7)
    show "[hit1] = concat (map (\<lambda>x. hit_list (snd x)) ?xs)" by (rule 8)
  qed
  then show ?thesis
    by (rule scroll_follows_cursors [THEN iffD2])
qed

section \<open>Properties of the mapping reader\<close>

lemma excluded_iff: "(JStr m \<in> set excludes) = excluded_key m"
  by (auto simp: excludes_def excluded_key_def)

lemma type_records_ok:
  assumes d: "distinct (map fst tys)"
  shows "set tys' \<subseteq> set tys \<Longrightarrow> list_all (\<lambda>(m, tv). excluded_key m \<or> is_obj tv) tys' \<Longrightarrow>
         type_records (JStr i) (JObj tys) (map (\<lambda>kv. JStr (fst kv)) tys') = (records_of_index i tys', None)"
proof (induction tys')
  case Nil
  then show ?case by (simp add: records_of_index_def)
next
  case (Cons kv rest)
  obtain m tv where kv: "kv = (m, tv)" by (cases kv)
  from Cons.prems have rest: "set rest \<subseteq> set tys" "list_all (\<lambda>(m, tv). excluded_key m \<or> is_obj tv) rest"
    by auto
  note IH = Cons.IH [OF rest]
  show ?case
  proof (cases "excluded_key m")
    case True
    then show ?thesis using IH by (simp add: kv excluded_iff records_of_index_def)
  next
    case False
    with Cons.prems kv obtain fields where tv: "tv = JObj fields" by (cases tv) auto
    from Cons.prems kv have "(m, tv) \<in> set tys" by simp
    with d have look: "map_of tys m = Some tv" by simp
    show ?thesis
      using False IH by (simp add: kv excluded_iff look tv records_of_index_def schema_of_def)
  qed
qed

lemma index_records_ok:
  assumes d: "distinct (map fst idxs)"
  shows "set idxs' \<subseteq> set idxs \<Longrightarrow>
         list_all (\<lambda>(i, entry). case type_table entry of None \<Rightarrow> False | Some tys \<Rightarrow> type_table_ok tys) idxs' \<Longrightarrow>
         index_records (JObj idxs) (map (\<lambda>kv. JStr (fst kv)) idxs') = (expected_records idxs', None)"
proof (induction idxs')
  case Nil
  then show ?case by (simp add: expected_records_def)
next
  case (Cons kv rest)
  obtain i entry where kv: "kv = (i, entry)" by (cases kv)
  from Cons.prems have rest: "set rest \<subseteq> set idxs"
    "list_all (\<lambda>(i, entry). case type_table entry of None \<Rightarrow> False | Some tys \<Rightarrow> type_table_ok tys) rest"
    by auto
  note IH = Cons.IH [OF rest]
  from Cons.prems kv obtain tys where tt: "type_table entry = Some tys" and ok: "type_table_ok tys"
    by (auto split: option.splits)
  from tt obtain e where entry: "entry = JObj e" and mp: "map_of e ''mappings'' = Some (JObj tys)"
    by (auto simp: type_table_def split: json.splits option.splits)
  from Cons.prems kv have "(i, entry) \<in> set idxs" by simp
  with d have look: "map_of idxs i = Some entry" by simp
  have inner: "type_records (JStr i) (JObj tys) (map (\<lambda>kv. JStr (fst kv)) tys) = (records_of_index i tys, None)"
    using ok by (intro type_records_ok) (auto simp: type_table_ok_def)
  have ex: "expected_records ((i, entry) # rest) = records_of_index i tys @ expected_records rest"
    by (simp add: expected_records_def tt)
  have step: "index_records (JObj idxs) (JStr i # map (\<lambda>kv. JStr (fst kv)) rest) =
                (records_of_index i tys @ expected_records rest, None)"
    using look mp inner IH by (simp add: entry)
  show ?case
    using step ex by (simp add: kv)
qed

lemma type_records_never_excluded:
  "type_records i mp ms = (rs, err) \<Longrightarrow> r \<in> set rs \<Longrightarrow> type r \<notin> set excludes"
  by (induction ms arbitrary: rs err) (auto split: if_splits sum.splits prod.splits)

lemma index_records_never_excluded:
  "index_records data is = (rs, err) \<Longrightarrow> r \<in> set rs \<Longrightarrow> type r \<notin> set excludes"
proof (induction "is" arbitrary: rs err)
  case Nil
  then show ?case by simp
next
  case (Cons i rest)
  then show ?case
    by (auto split: sum.splits prod.splits option.splits dest: type_records_never_excluded)
qed

lemma query_mappings_never_excluded:
  "r \<in> set (fst (fst (query_mappings env self st))) \<Longrightarrow> type r \<notin> set excludes"
  by (cases "query_from_url env self st")
     (auto simp: query_mappings_def split: sum.splits prod.splits
           dest: index_records_never_excluded [OF surjective_pairing])

lemma records_of_index_keys:
  "map (\<lambda>r. (index r, type r)) (records_of_index i tys) =
     map (\<lambda>kv. (JStr i, JStr (fst kv))) (filter (\<lambda>(m, tv). \<not> excluded_key m) tys)"
  by (simp add: records_of_index_def case_prod_beta)

lemma records_of_index_distinct:
  "distinct (map fst tys) \<Longrightarrow> distinct (map (\<lambda>r. (index r, type r)) (records_of_index i tys))"
proof -
  assume d: "distinct (map fst tys)"
  have "distinct (map fst (filter (\<lambda>(m, tv). \<not> excluded_key m) tys))"
    using d by (rule distinct_map_filter)
  then have "distinct (map (\<lambda>kv. (JStr i, JStr (fst kv))) (filter (\<lambda>(m, tv). \<not> excluded_key m) tys))"
    by (simp add: distinct_map inj_on_def)
  then show ?thesis by (simp add: records_of_index_keys)
qed

lemma expected_records_Cons:
  "expected_records ((i, entry) # rest) =
     (case type_table entry of None \<Rightarrow> [] | Some tys \<Rightarrow> records_of_index i tys)
     @ expected_records rest"
  by (simp add: expected_records_def)

lemma records_of_index_index: "r \<in> set (records_of_index i tys) \<Longrightarrow> index r = JStr i"
  by (auto simp: records_of_index_def)

lemma expected_records_index:
  "r \<in> set (expected_records idxs) \<Longrightarrow> index r \<in> (\<lambda>kv. JStr (fst kv)) ` set idxs"
proof (induction idxs)
  case Nil
  then show ?case by (simp add: expected_records_def)
next
  case (Cons kv rest)
  obtain i entry where kv: "kv = (i, entry)" by (cases kv)
  show ?case
  proof (cases "type_table entry")
    case None
    with Cons.prems have "r \<in> set (expected_records rest)"
      by (simp add: kv expected_records_Cons)
    then show ?thesis using Cons.IH by simp
  next
    case (Some tys)
    with Cons.prems have "r \<in> set (records_of_index i tys) \<or> r \<in> set (expected_records rest)"
      by (simp add: kv expected_records_Cons)
    then show ?thesis
      using records_of_index_index [of r i tys] Cons.IH by (auto simp: kv)
  qed
qed

lemma expected_records_distinct:
  "raw_mapping_document idxs \<Longrightarrow> distinct (map (\<lambda>r. (index r, type r)) (expected_records idxs))"
proof (induction idxs)
  case Nil
  then show ?case by (simp add: expected_records_def)
next
  case (Cons kv rest)
  obtain i entry where kv: "kv = (i, entry)" by (cases kv)
  from Cons.prems kv obtain tys where tt: "type_table entry = Some tys" and ok: "type_table_ok tys"
    by (auto simp: raw_mapping_document_def split: option.splits)
  from Cons.prems have rest: "raw_mapping_document rest" by (simp add: raw_mapping_document_def)
  from Cons.prems kv have fresh: "i \<notin> fst ` set rest" by (simp add: raw_mapping_document_def)
  have ex: "expected_records (kv # rest) = records_of_index i tys @ expected_records rest"
    by (simp add: expected_records_def tt kv)
  have 1: "distinct (map (\<lambda>r. (index r, type r)) (records_of_index i tys))"
    using ok by (simp add: records_of_index_distinct type_table_ok_def)
  have 2: "index r = JStr i" if "r \<in> set (records_of_index i tys)" for r
    using that by (auto simp: records_of_index_def)
  have 3: "index r \<noteq> JStr i" if "r \<in> set (expected_records rest)" for r
    using expected_records_index [OF that] fresh by force
  have "(\<lambda>r. (index r, type r)) ` set (records_of_index i tys)
        \<inter> (\<lambda>r. (index r, type r)) ` set (expected_records rest) = {}"
    using 2 3 by fastforce
  then show ?case
    using 1 Cons.IH [OF rest] by (simp add: ex)
qed


text \<open>
  C8: \<^verbatim>\<open>query_mappings\<close> never yields a record whose type is one of the excluded keys
  \<^verbatim>\<open>_default_\<close>, \<^verbatim>\<open>_all\<close>, \<^verbatim>\<open>properties\<close>, whatever the cluster returned; and for
  every raw mapping document it yields, in the document's order, exactly the records the
  specification lists (one for each index and each of its type keys outside the exclusion
  set, with the schema \<^verbatim>\<open>mappings[type].properties\<close> or \<^verbatim>\<open>None\<close>), no two of them for
  the same index and type, and ends without an exception. For the index of the tests, with
  type keys \<^verbatim>\<open>_default_\<close>, \<^verbatim>\<open>_all\<close>, \<^verbatim>\<open>properties\<close> and \<^verbatim>\<open>data\<close>, that is the single
  record of \<^verbatim>\<open>data\<close>.
\<close>

theorem query_mappings_records:
  "(\<forall>r \<in> set (fst (fst (query_mappings env self st))). type r \<notin> set excludes)
   \<and> (query_from_url env self st = (Inr (JObj idxs), st') \<and> raw_mapping_document idxs \<longrightarrow>
        query_mappings env self st = ((expected_records idxs, None), st')
        \<and> distinct (map (\<lambda>r. (index r, type r)) (expected_records idxs)))"
proof (intro conjI impI ballI)
  fix r assume "r \<in> set (fst (fst (query_mappings env self st)))"
  then show "type r \<notin> set excludes" by (rule query_mappings_never_excluded)
next
  assume a: "query_from_url env self st = (Inr (JObj idxs), st') \<and> raw_mapping_document idxs"
  then have "index_records (JObj idxs) (map (\<lambda>kv. JStr (fst kv)) idxs) = (expected_records idxs, None)"
    by (intro index_records_ok) (auto simp: raw_mapping_document_def)
  with a show "query_mappings env self st = ((expected_records idxs, None), st')"
    by (simp add: query_mappings_def)
next
  assume "query_from_url env self st = (Inr (JObj idxs), st') \<and> raw_mapping_document idxs"
  then show "distinct (map (\<lambda>r. (index r, type r)) (expected_records idxs))"
    by (simp add: expected_records_distinct)
qed


theorem query_mappings_records_witness:
  "query_mappings sim_env ep (start mapping_session) =
     (([\<lparr>index = JStr ''test'', type = JStr ''data'',
         schema = JObj [(''content'', JObj []), (''env'', JObj [])]\<rparr>], None),
      \<lparr>trace = [Get mapping_request (Inr (JObj test_mappings))], world = idle\<rparr>)"
proof -
  let ?st' = "\<lparr>trace = [Get mapping_request (Inr (JObj test_mappings))], world = idle\<rparr>"
  have q: "query_from_url sim_env ep (start mapping_session) = (Inr (JObj test_mappings), ?st')"
    by (simp add: query_from_url_def make_url_def join_values_def endswith_def opt_str_def
        do_get_def sim_env_def sim_get_def start_def ep_def es_def mapping_session_def
        mapping_request_def idle_def check_body_def test_mappings_def)
  have wf: "raw_mapping_document test_mappings"
    by (simp add: raw_mapping_document_def type_table_def type_table_ok_def test_mappings_def
        excluded_key_def)
  have ex: "expected_records test_mappings =
              [\<lparr>index = JStr ''test'', type = JStr ''data'',
                schema = JObj [(''content'', JObj []), (''env'', JObj [])]\<rparr>]"
    by (simp add: expected_records_def records_of_index_def type_table_def schema_of_def
        test_mappings_def excluded_key_def)
  show ?thesis
    using query_mappings_records [of sim_env ep "start mapping_session" test_mappings ?st'] q wf
    by (simp add: ex)
qed

section \<open>Properties of the importer\<close>

lemma make_url_document:
  assumes "idx \<noteq> []" "ty \<noteq> []"
  shows "make_url f u [JStr idx, JStr ty, v] [(''op_type'', JStr ''create'')] =
     (if \<not> truthy v then Inr (type_level_url u idx ty)
      else case v of JStr c \<Rightarrow> Inr (document_url u idx ty c) | _ \<Rightarrow> Inl TypeError)"
  using assms
  by (cases v)
     (simp_all add: make_url_def join_values_def format_value_def with_slash_def
        type_level_url_def document_url_def Let_def)

lemma upload_docs_step:
  assumes "self_index_name self = Some idx" "idx \<noteq> []" "ty \<noteq> []"
    and "document_hit h \<or> hit_without_id h"
  shows "upload_docs env self ty (h # rest) st =
     (case do_put env (put_url (self_uri self) idx ty h) (source_of h) st of
        (Some e, st') \<Rightarrow> (Some e, st')
      | (None, st') \<Rightarrow> upload_docs env self ty rest st')"
proof -
  from assms(4) obtain kvs where h: "h = JObj kvs"
    by (cases h) (auto simp: document_hit_def hit_without_id_def)
  have url: "make_url (py_str env) (self_uri self) [JStr idx, JStr ty, id_of h]
               [(''op_type'', JStr ''create'')] = Inr (put_url (self_uri self) idx ty h)"
    using assms(2,3,4)
    by (auto simp: make_url_document put_url_def document_hit_def hit_without_id_def id_string_def
             split: json.splits)
  show ?thesis
    using url by (simp add: h assms(1) opt_str_def id_of_def source_of_def)
qed

lemma upload_docs_trace:
  assumes "self_index_name self = Some idx" "idx \<noteq> []" "ty \<noteq> []"
    and put: "\<forall>url body w. fst (http_put env url body w) = None"
  shows "list_all (\<lambda>h. document_hit h \<or> hit_without_id h) hits \<Longrightarrow>
         \<exists>st'. upload_docs env self ty hits st = (None, st')
              \<and> trace st' = trace st @ map (\<lambda>h. Put (put_url (self_uri self) idx ty h) (source_of h)) hits"
proof (induction hits arbitrary: st)
  case Nil
  then show ?case by simp
next
  case (Cons h rest)
  let ?url = "put_url (self_uri self) idx ty h"
  obtain st1 where p: "do_put env ?url (source_of h) st = (None, st1)"
    and t1: "trace st1 = trace st @ [Put ?url (source_of h)]"
    using put [rule_format, of ?url "source_of h" "world st"]
    by (cases "http_put env ?url (source_of h) (world st)") (auto simp: do_put_def)
  from Cons.prems have h: "document_hit h \<or> hit_without_id h"
    and rest: "list_all (\<lambda>h. document_hit h \<or> hit_without_id h) rest" by auto
  from Cons.IH [OF rest, of st1] obtain st' where
    r: "upload_docs env self ty rest st1 = (None, st')"
    and t: "trace st' = trace st1 @ map (\<lambda>h. Put (put_url (self_uri self) idx ty h) (source_of h)) rest"
    by blast
  have "upload_docs env self ty (h # rest) st = (None, st')"
    using upload_docs_step [OF assms(1-3) h, of env rest st] p r by simp
  then show ?case using t t1 by simp
qed


lemmas upload_simps =
  upload_data_def make_fp_def strip_dots_def path_join_def startswith_def endswith_def
  opt_str_def do_load_def do_put_def make_url_def join_values_def format_value_def
  sim_env_def sim_load_def start_def

lemma ep_fp: "make_fp (self_dirname ep) [JStr ''test'', JStr ''data''] ''.json'' = Inr documents_file"
  by (simp add: upload_simps ep_def documents_file_def)


text \<open>
  C6: for a configured index and a type, \<^verbatim>\<open>upload_data\<close> fails with the error of the missing
  document file, before anything else is done, when the file that \<^verbatim>\<open>make_fp\<close> names does
  not exist. When the file exists and holds a list of document hits, it issues, for every
  hit and in the order of the file, exactly one PUT of the hit's \<^verbatim>\<open>_source\<close> to
  \<^verbatim>\<open>{uri}/{index}/{type}/{_id}?op_type=create\<close>, and completes (no PUT being refused by
  the transport). Nothing is required of the ids: a hit whose id occurred before is sent
  like any other.
\<close>

theorem upload_data_puts:
  assumes "self_index_name self = Some idx" "idx \<noteq> []" "ty \<noteq> []"
    and "make_fp (self_dirname self) [JStr idx, JStr ty] ''.json'' = Inr fp"
  shows "(\<not> path_exists env fp (world st) \<longrightarrow>
            upload_data env self ty st = (Some (document_not_found ty), st))
       \<and> (path_exists env fp (world st) \<and> json_load env fp (world st) = Inr (JArr hits)
            \<and> list_all document_hit hits \<and> (\<forall>url body w. fst (http_put env url body w) = None) \<longrightarrow>
            (\<exists>st'. upload_data env self ty st = (None, st')
                 \<and> trace st' = trace st @ Load fp #
                      map (\<lambda>h. Put (document_url (self_uri self) idx ty (id_string h)) (source_of h)) hits))"
proof (intro conjI impI)
  assume "\<not> path_exists env fp (world st)"
  then show "upload_data env self ty st = (Some (document_not_found ty), st)"
    using assms by (simp add: upload_data_def opt_str_def)
next
  assume a: "path_exists env fp (world st) \<and> json_load env fp (world st) = Inr (JArr hits)
            \<and> list_all document_hit hits \<and> (\<forall>url body w. fst (http_put env url body w) = None)"
  let ?st1 = "st\<lparr>trace := trace st @ [Load fp]\<rparr>"
  from a have ok: "list_all (\<lambda>h. document_hit h \<or> hit_without_id h) hits"
    by (simp add: list_all_iff)
  from a have put: "\<forall>url body w. fst (http_put env url body w) = None" by simp
  from upload_docs_trace [OF assms(1-3) put ok, of ?st1] obtain st' where
    r: "upload_docs env self ty hits ?st1 = (None, st')"
    and t: "trace st' = trace ?st1 @ map (\<lambda>h. Put (put_url (self_uri self) idx ty h) (source_of h)) hits"
    by blast
  have same: "put_url (self_uri self) idx ty h = document_url (self_uri self) idx ty (id_string h)"
    if "document_hit h" for h
    using that by (auto simp: put_url_def document_hit_def hit_without_id_def split: json.splits)
  have "map (\<lambda>h. Put (put_url (self_uri self) idx ty h) (source_of h)) hits =
        map (\<lambda>h. Put (document_url (self_uri self) idx ty (id_string h)) (source_of h)) hits"
    using a same by (intro map_cong) (auto simp: list_all_iff)
  with t have t': "trace st' = trace st @ Load fp #
      map (\<lambda>h. Put (document_url (self_uri self) idx ty (id_string h)) (source_of h)) hits"
    by simp
  have "upload_data env self ty st = (None, st')"
    using a assms r by (simp add: upload_data_def opt_str_def do_load_def)
  with t' show "\<exists>st'. upload_data env self ty st = (None, st')
                 \<and> trace st' = trace st @ Load fp #
                      map (\<lambda>h. Put (document_url (self_uri self) idx ty (id_string h)) (source_of h)) hits"
    by blast
qed

theorem upload_data_puts_witness:
  "upload_data sim_env ep ''data'' (start idle) = (Some (document_not_found ''data''), start idle)
   \<and> (\<exists>st'. upload_data sim_env ep ''data'' (start upload_session) = (None, st')
          \<and> trace st' =
              [Load documents_file,
               Put ''http://es/test/data/1?op_type=create'' (JObj [(''env'', JStr ''a'')]),
               Put ''http://es/test/data/2?op_type=create'' (JObj [(''env'', JStr ''b'')]),
               Put ''http://es/test/data/1?op_type=create'' (JObj [(''env'', JStr ''a'')])])"
proof -
  have i: "self_index_name ep = Some ''test''" "''test'' \<noteq> []" "''data'' \<noteq> []"
    by (simp_all add: ep_def)
  have absent: "\<not> path_exists sim_env documents_file (world (start idle))"
    by (simp add: sim_env_def start_def idle_def)
  have present: "path_exists sim_env documents_file (world (start upload_session))
      \<and> json_load sim_env documents_file (world (start upload_session)) = Inr (JArr [hit1, hit2, hit1])
      \<and> list_all document_hit [hit1, hit2, hit1]
      \<and> (\<forall>url body w. fst (http_put sim_env url body w) = None)"
    by (simp add: sim_env_def sim_load_def start_def upload_session_def document_hit_def id_of_def
        hit1_def hit2_def)
  have urls: "document_url (self_uri ep) ''test'' ''data'' (id_string hit1) = ''http://es/test/data/1?op_type=create''"
    "document_url (self_uri ep) ''test'' ''data'' (id_string hit2) = ''http://es/test/data/2?op_type=create''"
    "source_of hit1 = JObj [(''env'', JStr ''a'')]" "source_of hit2 = JObj [(''env'', JStr ''b'')]"
    by (simp_all add: document_url_def with_slash_def endswith_def id_string_def id_of_def
        source_of_def ep_def es_def hit1_def hit2_def)
  show ?thesis
    using upload_data_puts [OF i ep_fp, of sim_env "start idle" "[]"]
      upload_data_puts [OF i ep_fp, of sim_env "start upload_session" "[hit1, hit2, hit1]"]
      absent present
    by (simp add: urls start_def)
qed


text \<open>
  C10: a hit of the document file that has no \<^verbatim>\<open>_id\<close> key, or whose \<^verbatim>\<open>_id\<close> is false,
  raises nothing: the loop issues a PUT to \<^verbatim>\<open>{uri}/{index}/{type}?op_type=create\<close>, with no
  id segment, sending the hit's \<^verbatim>\<open>_source\<close> (\<^verbatim>\<open>null\<close> when absent), and goes on with the
  next hit unless that PUT itself raises. For a file of hits with and without id, the
  requests are, in file order, one PUT per hit to the URL with or without the id segment.
\<close>

theorem upload_data_without_id:
  assumes "self_index_name self = Some idx" "idx \<noteq> []" "ty \<noteq> []"
  shows "(hit_without_id h \<longrightarrow>
            upload_docs env self ty (h # rest) st =
              (case do_put env (type_level_url (self_uri self) idx ty) (source_of h) st of
                 (Some e, st') \<Rightarrow> (Some e, st')
               | (None, st') \<Rightarrow> upload_docs env self ty rest st'))
       \<and> (make_fp (self_dirname self) [JStr idx, JStr ty] ''.json'' = Inr fp
            \<and> path_exists env fp (world st) \<and> json_load env fp (world st) = Inr (JArr hits)
            \<and> list_all (\<lambda>h. document_hit h \<or> hit_without_id h) hits
            \<and> (\<forall>url body w. fst (http_put env url body w) = None) \<longrightarrow>
            (\<exists>st'. upload_data env self ty st = (None, st')
                 \<and> trace st' = trace st @ Load fp #
                      map (\<lambda>h. Put (if hit_without_id h then type_level_url (self_uri self) idx ty
                                     else document_url (self_uri self) idx ty (id_string h))
                                    (source_of h)) hits))"
proof (intro conjI impI)
  assume "hit_without_id h"
  then show "upload_docs env self ty (h # rest) st =
              (case do_put env (type_level_url (self_uri self) idx ty) (source_of h) st of
                 (Some e, st') \<Rightarrow> (Some e, st')
               | (None, st') \<Rightarrow> upload_docs env self ty rest st')"
    using upload_docs_step [OF assms, of h env rest st] by (simp add: put_url_def)
next
  assume a: "make_fp (self_dirname self) [JStr idx, JStr ty] ''.json'' = Inr fp
            \<and> path_exists env fp (world st) \<and> json_load env fp (world st) = Inr (JArr hits)
            \<and> list_all (\<lambda>h. document_hit h \<or> hit_without_id h) hits
            \<and> (\<forall>url body w. fst (http_put env url body w) = None)"
  let ?st1 = "st\<lparr>trace := trace st @ [Load fp]\<rparr>"
  from a have ok: "list_all (\<lambda>h. document_hit h \<or> hit_without_id h) hits" by simp
  from a have put: "\<forall>url body w. fst (http_put env url body w) = None" by simp
  from upload_docs_trace [OF assms(1-3) put ok, of ?st1] obtain st' where
    r: "upload_docs env self ty hits ?st1 = (None, st')"
    and t: "trace st' = trace ?st1 @ map (\<lambda>h. Put (put_url (self_uri self) idx ty h) (source_of h)) hits"
    by blast
  have "upload_data env self ty st = (None, st')"
    using a assms r by (simp add: upload_data_def opt_str_def do_load_def)
  with t show "\<exists>st'. upload_data env self ty st = (None, st')
                 \<and> trace st' = trace st @ Load fp #
                      map (\<lambda>h. Put (if hit_without_id h then type_level_url (self_uri self) idx ty
                                     else document_url (self_uri self) idx ty (id_string h))
                                    (source_of h)) hits"
    by (auto simp: put_url_def)
qed

theorem upload_data_without_id_witness:
  "upload_docs sim_env ep ''data'' [bare_hit] (start idle) =
     (None, \<lparr>trace = [Put ''http://es/test/data?op_type=create'' JNull], world = idle\<rparr>)
   \<and> (\<exists>st'. upload_data sim_env ep ''data'' (start idless_session) = (None, st')
          \<and> trace st' =
              [Load documents_file,
               Put ''http://es/test/data?op_type=create'' JNull,
               Put ''http://es/test/data/3?op_type=create'' (JObj [(''env'', JStr ''c'')])])"
proof -
  have i: "self_index_name ep = Some ''test''" "''test'' \<noteq> []" "''data'' \<noteq> []"
    by (simp_all add: ep_def)
  have bare: "hit_without_id bare_hit"
    by (simp add: hit_without_id_def id_of_def bare_hit_def)
  have three: "\<not> hit_without_id hit3"
    by (simp add: hit_without_id_def id_of_def hit3_def)
  have f: "make_fp (self_dirname ep) [JStr ''test'', JStr ''data''] ''.json'' = Inr documents_file
      \<and> path_exists sim_env documents_file (world (start idless_session))
      \<and> json_load sim_env documents_file (world (start idless_session)) = Inr (JArr [bare_hit, hit3])
      \<and> list_all (\<lambda>h. document_hit h \<or> hit_without_id h) [bare_hit, hit3]
      \<and> (\<forall>url body w. fst (http_put sim_env url body w) = None)"
    using ep_fp bare
    by (simp add: sim_env_def sim_load_def start_def idless_session_def document_hit_def id_of_def
        hit3_def)
  have urls: "type_level_url (self_uri ep) ''test'' ''data'' = ''http://es/test/data?op_type=create''"
    "document_url (self_uri ep) ''test'' ''data'' (id_string hit3) = ''http://es/test/data/3?op_type=create''"
    "source_of bare_hit = JNull" "source_of hit3 = JObj [(''env'', JStr ''c'')]"
    by (simp_all add: document_url_def type_level_url_def with_slash_def endswith_def id_string_def
        id_of_def source_of_def ep_def es_def hit3_def bare_hit_def)
  show ?thesis
    using upload_data_without_id [OF i, of bare_hit sim_env "[]" "start idle" documents_file "[]"]
      upload_data_without_id [OF i, of bare_hit sim_env "[]" "start idless_session" documents_file
        "[bare_hit, hit3]"]
      bare three f
    by (simp add: urls start_def do_put_def sim_env_def)
qed


text \<open>
  C4 (the code on a dotted index name): the exporter's files for type \<^verbatim>\<open>data\<close> of index
  \<^verbatim>\<open>logs-2015.09\<close> are \<^verbatim>\<open>logs-2015.09.data.mapping.json\<close> and \<^verbatim>\<open>logs-2015.09.data.json\<close>;
  the directory scan derives the type \<^verbatim>\<open>09\<close> from both, and \<^verbatim>\<open>upload\<close> with no type
  fails on the first, finding no mapping file of type \<^verbatim>\<open>09\<close>, before any request.
\<close>

theorem upload_scan_dotted_index:
  "file_of ''/tmp/fake'' ''logs-2015.09'' ''data'' Mapping = Inr ''/tmp/fake/logs-2015.09.data.mapping.json''
   \<and> file_of ''/tmp/fake'' ''logs-2015.09'' ''data'' Document = Inr ''/tmp/fake/logs-2015.09.data.json''
   \<and> derive_type ''logs-2015.09.data.mapping.json'' = Inr ''09''
   \<and> derive_type ''logs-2015.09.data.json'' = Inr ''09''
   \<and> upload sim_env dated None (start dated_dump) =
       (Some (IOError ''Mapping file of 09 does not exist.''), start dated_dump)"
  by (simp add: file_of_def make_fp_def strip_dots_def path_join_def startswith_def endswith_def
      derive_type_def splitext_def seq_index_def
      upload_def dir_exists_def upload_mapping_def make_url_def join_values_def opt_str_def
      sim_env_def start_def dated_def dated_dump_def es_def)


text \<open>
  For index and type names without dot or slash, the index name not empty, the scan does
  derive the type from both file names.
\<close>

lemma split_on_none: "c \<notin> set s \<Longrightarrow> split_on c s = [s]"
  by (induction s) auto

lemma split_on_first: "c \<notin> set a \<Longrightarrow> split_on c (a @ c # b) = a # split_on c b"
  by (induction a) auto

lemma splitext_json:
  assumes "CHR ''/'' \<notin> set s" "\<exists>c \<in> set s. c \<noteq> CHR ''.''"
  shows "splitext (s @ ''.json'') = (s, ''.json'')"
proof -
  have base: "rev (takeWhile (\<lambda>c. c \<noteq> CHR ''/'') (rev (s @ ''.json''))) = s @ ''.json''"
  proof -
    have "takeWhile (\<lambda>c. c \<noteq> CHR ''/'') (rev (s @ ''.json'')) = rev (s @ ''.json'')"
      using assms(1) by (intro takeWhile_eq_all_conv [THEN iffD2]) auto
    then show ?thesis by (simp only: rev_rev_ident)
  qed
  have stem: "rev (tl (dropWhile (\<lambda>c. c \<noteq> CHR ''.'') (rev (s @ ''.json'')))) = s"
    by simp
  show ?thesis
    unfolding splitext_def base Let_def stem using assms(2) by simp
qed

lemma derive_type_dotfree:
  assumes "idx \<noteq> []" "CHR ''.'' \<notin> set idx" "CHR ''.'' \<notin> set ty"
    "CHR ''/'' \<notin> set idx" "CHR ''/'' \<notin> set ty"
  shows "derive_type (idx @ ''.'' @ ty @ ''.json'') = Inr ty"
    and "derive_type (idx @ ''.'' @ ty @ ''.mapping.json'') = Inr ty"
proof -
  from assms(1,2) obtain c where c: "c \<in> set idx" "c \<noteq> CHR ''.''" by (cases idx) auto
  have 1: "splitext ((idx @ ''.'' @ ty) @ ''.json'') = (idx @ ''.'' @ ty, ''.json'')"
    using assms(4,5) c by (intro splitext_json) auto
  have 2: "splitext ((idx @ ''.'' @ ty @ ''.mapping'') @ ''.json'') = (idx @ ''.'' @ ty @ ''.mapping'', ''.json'')"
    using assms(4,5) c by (intro splitext_json) auto
  have s1: "split_on CHR ''.'' (idx @ CHR ''.'' # ty) = [idx, ty]"
    using assms(2,3) by (simp add: split_on_first split_on_none)
  have m: "split_on CHR ''.'' ''mapping'' = [''mapping'']" by simp
  have s2: "split_on CHR ''.'' (idx @ CHR ''.'' # ty @ CHR ''.'' # ''mapping'') = [idx, ty, ''mapping'']"
  proof -
    have "split_on CHR ''.'' (idx @ CHR ''.'' # ty @ CHR ''.'' # ''mapping'') =
            idx # split_on CHR ''.'' (ty @ CHR ''.'' # ''mapping'')"
      using assms(2) by (rule split_on_first)
    also have "split_on CHR ''.'' (ty @ CHR ''.'' # ''mapping'') = ty # split_on CHR ''.'' ''mapping''"
      using assms(3) by (rule split_on_first)
    finally show ?thesis using m by simp
  qed
  show "derive_type (idx @ ''.'' @ ty @ ''.json'') = Inr ty"
    using 1 s1 by (simp add: derive_type_def seq_index_def)
  show "derive_type (idx @ ''.'' @ ty @ ''.mapping.json'') = Inr ty"
    using 2 s2 by (simp add: derive_type_def seq_index_def)
qed


section \<open>Properties of the entry points\<close>

lemma dump_mapping_loop_append:
  "dump_mapping_loop env self (pre @ rs) st =
     (case dump_mapping_loop env self pre st of
        (Some e, st') \<Rightarrow> (Some e, st')
      | (None, st') \<Rightarrow> dump_mapping_loop env self rs st')"
  by (induction pre arbitrary: st) (auto split: sum.splits prod.splits option.splits)

lemma dump_data_loop_append:
  "dump_data_loop env self fuel (pre @ rs) st =
     (case dump_data_loop env self fuel pre st of
        None \<Rightarrow> None
      | Some (Some e, st') \<Rightarrow> Some (Some e, st')
      | Some (None, st') \<Rightarrow> dump_data_loop env self fuel rs st')"
  by (induction pre arbitrary: st) (auto split: sum.splits prod.splits option.splits)

lemma save_mapping_stage:
  assumes "dir_exists env self (world st)"
    and "query_mappings env self st = ((pre @ i # post, err), st0)"
    and "dump_mapping_loop env self pre st0 = (None, st1)"
    and "dump_mapping_loop env self [i] st1 = (Some e, st2)"
  shows "save env self fuel st = Some (Some e, st2)"
proof -
  have "dump_mapping_loop env self (i # post) st1 = (Some e, st2)"
    using assms(4) by (auto split: sum.splits prod.splits option.splits)
  then have "dump_mapping_loop env self (pre @ i # post) st0 = (Some e, st2)"
    using assms(3) by (simp add: dump_mapping_loop_append)
  then have "dump_mapping env self st = (Some e, st2)"
    using assms(2) by (simp add: dump_mapping_def)
  then show ?thesis using assms(1) by (simp add: save_def)
qed

lemma save_data_stage:
  assumes "dir_exists env self (world st)"
    and "dump_mapping env self st = (None, stm)"
    and "query_mappings env self stm = ((pre @ i # post, err), st0)"
    and "dump_data_loop env self fuel pre st0 = Some (None, st1)"
    and "dump_data_loop env self fuel [i] st1 = Some (Some e, st2)"
  shows "save env self fuel st = Some (Some e, st2)"
proof -
  have "dump_data_loop env self fuel (i # post) st1 = Some (Some e, st2)"
    using assms(5) by (auto split: sum.splits prod.splits option.splits)
  then have "dump_data_loop env self fuel (pre @ i # post) st0 = Some (Some e, st2)"
    using assms(4) by (simp add: dump_data_loop_append)
  then have "dump_data env self fuel stm = Some (Some e, st2)"
    using assms(3) by (simp add: dump_data_def)
  then show ?thesis using assms(1,2) by (simp add: save_def)
qed

text \<open>
  C7: when \<^verbatim>\<open>self.dirname\<close> is unset, empty or does not exist, \<^verbatim>\<open>save\<close> and \<^verbatim>\<open>upload\<close>
  raise the error of the missing directory and leave the trace and the outside world as
  they were: no request was issued and no file opened. When it exists, \<^verbatim>\<open>save\<close> runs
  \<^verbatim>\<open>dump_mapping\<close> and then, unless an exception left it, \<^verbatim>\<open>dump_data\<close>, and every failure
  underneath is the result of \<^verbatim>\<open>save\<close>, with the state reached when it occurred: an
  exception of the mapping query; an exception that ends the generator of the records after
  the records before it were dumped; and, at any record \<open>i\<close> whose predecessors were dumped
  without error, in either pass, a failure to build the file path, to open the file, to
  write it, or an exception leaving the scroll of the record's documents.
\<close>

theorem save_upload_directory:
  "(\<not> dir_exists env self (world st) \<longrightarrow>
      save env self fuel st = Some (Some (directory_not_found env self), st)
      \<and> upload env self ty st = (Some (directory_not_found env self), st))
   \<and> (dir_exists env self (world st) \<longrightarrow>
        (query_from_url env self st = (Inl e, sq) \<longrightarrow> save env self fuel st = Some (Some e, sq))
      \<and> (dump_mapping env self st = (Some e, sp) \<longrightarrow> save env self fuel st = Some (Some e, sp))
      \<and> (dump_mapping env self st = (None, sm) \<longrightarrow>
            save env self fuel st = dump_data env self fuel sm)
      \<and> (query_mappings env self st = ((rs, Some e), sq)
          \<and> dump_mapping_loop env self rs sq = (None, sp) \<longrightarrow>
            save env self fuel st = Some (Some e, sp))
      \<and> (query_mappings env self st = ((pre @ i # post, err), sq)
          \<and> dump_mapping_loop env self pre sq = (None, sp) \<longrightarrow>
            (make_fp (self_dirname self) [index i, type i, JStr ''mapping''] ''.json'' = Inl e \<longrightarrow>
               save env self fuel st = Some (Some e, sp))
          \<and> (make_fp (self_dirname self) [index i, type i, JStr ''mapping''] ''.json'' = Inr fp
              \<and> open_write env fp (world sp) = (Some e, w) \<longrightarrow>
               save env self fuel st =
                 Some (Some e, \<lparr>trace = trace sp @ [OpenWrite fp], world = w\<rparr>))
          \<and> (make_fp (self_dirname self) [index i, type i, JStr ''mapping''] ''.json'' = Inr fp
              \<and> open_write env fp (world sp) = (None, w)
              \<and> json_dump env fp (JObj [(''properties'', schema i)]) w = (Some e, wd) \<longrightarrow>
               save env self fuel st =
                 Some (Some e,
                       \<lparr>trace = trace sp @ [OpenWrite fp, Dump fp (JObj [(''properties'', schema i)])],
                        world = wd\<rparr>)))
      \<and> (dump_mapping env self st = (None, sm)
          \<and> query_mappings env self sm = ((rs, Some e), sq)
          \<and> dump_data_loop env self fuel rs sq = Some (None, sp) \<longrightarrow>
            save env self fuel st = Some (Some e, sp))
      \<and> (dump_mapping env self st = (None, sm)
          \<and> query_mappings env self sm = ((pre @ i # post, err), sq)
          \<and> dump_data_loop env self fuel pre sq = Some (None, sp) \<longrightarrow>
            (make_fp (self_dirname self) [index i, type i] ''.json'' = Inl e \<longrightarrow>
               save env self fuel st = Some (Some e, sp))
          \<and> (make_fp (self_dirname self) [index i, type i] ''.json'' = Inr fp
              \<and> open_write env fp (world sp) = (Some e, w) \<longrightarrow>
               save env self fuel st =
                 Some (Some e, \<lparr>trace = trace sp @ [OpenWrite fp], world = w\<rparr>))
          \<and> (make_fp (self_dirname self) [index i, type i] ''.json'' = Inr fp
              \<and> open_write env fp (world sp) = (None, w)
              \<and> scroll_data env (self_uri self) (index i) (type i) ''1m'' fuel
                   \<lparr>trace = trace sp @ [OpenWrite fp], world = w\<rparr> = Some ((hits, Some e), ss) \<longrightarrow>
               save env self fuel st = Some (Some e, ss))
          \<and> (make_fp (self_dirname self) [index i, type i] ''.json'' = Inr fp
              \<and> open_write env fp (world sp) = (None, w)
              \<and> scroll_data env (self_uri self) (index i) (type i) ''1m'' fuel
                   \<lparr>trace = trace sp @ [OpenWrite fp], world = w\<rparr> = Some ((hits, None), ss)
              \<and> json_dump env fp (JArr hits) (world ss) = (Some e, wd) \<longrightarrow>
               save env self fuel st =
                 Some (Some e, \<lparr>trace = trace ss @ [Dump fp (JArr hits)], world = wd\<rparr>))))"
proof (intro conjI impI; (elim conjE)?)
  assume "\<not> dir_exists env self (world st)"
  then show "save env self fuel st = Some (Some (directory_not_found env self), st)"
    by (simp add: save_def)
next
  assume "\<not> dir_exists env self (world st)"
  then show "upload env self ty st = (Some (directory_not_found env self), st)"
    by (simp add: upload_def)
next
  assume d: "dir_exists env self (world st)" and "query_from_url env self st = (Inl e, sq)"
  then have "query_mappings env self st = (([], Some e), sq)"
    by (simp add: query_mappings_def)
  then have "dump_mapping env self st = (Some e, sq)"
    by (simp add: dump_mapping_def)
  with d show "save env self fuel st = Some (Some e, sq)"
    by (simp add: save_def)
next
  assume "dir_exists env self (world st)" "dump_mapping env self st = (Some e, sp)"
  then show "save env self fuel st = Some (Some e, sp)"
    by (simp add: save_def)
next
  assume "dir_exists env self (world st)" "dump_mapping env self st = (None, sm)"
  then show "save env self fuel st = dump_data env self fuel sm"
    by (simp add: save_def)
next
  assume "dir_exists env self (world st)" "query_mappings env self st = ((rs, Some e), sq)"
    "dump_mapping_loop env self rs sq = (None, sp)"
  then show "save env self fuel st = Some (Some e, sp)"
    by (simp add: save_def dump_mapping_def)
next
  assume h: "dir_exists env self (world st)" "query_mappings env self st = ((pre @ i # post, err), sq)"
    "dump_mapping_loop env self pre sq = (None, sp)"
    and f: "make_fp (self_dirname self) [index i, type i, JStr ''mapping''] ''.json'' = Inl e"
  show "save env self fuel st = Some (Some e, sp)"
    using f by (intro save_mapping_stage [OF h]) simp
next
  assume h: "dir_exists env self (world st)" "query_mappings env self st = ((pre @ i # post, err), sq)"
    "dump_mapping_loop env self pre sq = (None, sp)"
    and f: "make_fp (self_dirname self) [index i, type i, JStr ''mapping''] ''.json'' = Inr fp"
      "open_write env fp (world sp) = (Some e, w)"
  show "save env self fuel st = Some (Some e, \<lparr>trace = trace sp @ [OpenWrite fp], world = w\<rparr>)"
    using f by (intro save_mapping_stage [OF h]) (simp add: do_open_write_def)
next
  assume h: "dir_exists env self (world st)" "query_mappings env self st = ((pre @ i # post, err), sq)"
    "dump_mapping_loop env self pre sq = (None, sp)"
    and f: "make_fp (self_dirname self) [index i, type i, JStr ''mapping''] ''.json'' = Inr fp"
      "open_write env fp (world sp) = (None, w)"
      "json_dump env fp (JObj [(''properties'', schema i)]) w = (Some e, wd)"
  show "save env self fuel st =
          Some (Some e, \<lparr>trace = trace sp @ [OpenWrite fp, Dump fp (JObj [(''properties'', schema i)])],
                         world = wd\<rparr>)"
    using f by (intro save_mapping_stage [OF h]) (simp add: do_open_write_def do_dump_def)
next
  assume "dir_exists env self (world st)" "dump_mapping env self st = (None, sm)"
    "query_mappings env self sm = ((rs, Some e), sq)"
    "dump_data_loop env self fuel rs sq = Some (None, sp)"
  then show "save env self fuel st = Some (Some e, sp)"
    by (simp add: save_def dump_data_def)
next
  assume h: "dir_exists env self (world st)" "dump_mapping env self st = (None, sm)"
    "query_mappings env self sm = ((pre @ i # post, err), sq)"
    "dump_data_loop env self fuel pre sq = Some (None, sp)"
    and f: "make_fp (self_dirname self) [index i, type i] ''.json'' = Inl e"
  show "save env self fuel st = Some (Some e, sp)"
    using f by (intro save_data_stage [OF h]) simp
next
  assume h: "dir_exists env self (world st)" "dump_mapping env self st = (None, sm)"
    "query_mappings env self sm = ((pre @ i # post, err), sq)"
    "dump_data_loop env self fuel pre sq = Some (None, sp)"
    and f: "make_fp (self_dirname self) [index i, type i] ''.json'' = Inr fp"
      "open_write env fp (world sp) = (Some e, w)"
  show "save env self fuel st = Some (Some e, \<lparr>trace = trace sp @ [OpenWrite fp], world = w\<rparr>)"
    using f by (intro save_data_stage [OF h]) (simp add: do_open_write_def)
next
  assume h: "dir_exists env self (world st)" "dump_mapping env self st = (None, sm)"
    "query_mappings env self sm = ((pre @ i # post, err), sq)"
    "dump_data_loop env self fuel pre sq = Some (None, sp)"
    and f: "make_fp (self_dirname self) [index i, type i] ''.json'' = Inr fp"
      "open_write env fp (world sp) = (None, w)"
      "scroll_data env (self_uri self) (index i) (type i) ''1m'' fuel
         \<lparr>trace = trace sp @ [OpenWrite fp], world = w\<rparr> = Some ((hits, Some e), ss)"
  show "save env self fuel st = Some (Some e, ss)"
    using f by (intro save_data_stage [OF h]) (simp add: do_open_write_def)
next
  assume h: "dir_exists env self (world st)" "dump_mapping env self st = (None, sm)"
    "query_mappings env self sm = ((pre @ i # post, err), sq)"
    "dump_data_loop env self fuel pre sq = Some (None, sp)"
    and f: "make_fp (self_dirname self) [index i, type i] ''.json'' = Inr fp"
      "open_write env fp (world sp) = (None, w)"
      "scroll_data env (self_uri self) (index i) (type i) ''1m'' fuel
         \<lparr>trace = trace sp @ [OpenWrite fp], world = w\<rparr> = Some ((hits, None), ss)"
      "json_dump env fp (JArr hits) (world ss) = (Some e, wd)"
  show "save env self fuel st =
          Some (Some e, \<lparr>trace = trace ss @ [Dump fp (JArr hits)], world = wd\<rparr>)"
    using f by (intro save_data_stage [OF h]) (simp add: do_open_write_def do_dump_def)
qed

lemmas faulty_simps =
  faulty_def dump_data_def dump_mapping_def query_mappings_def query_from_url_def check_body_def
  scroll_data_def search_url_def scroll_url_def resp_hits_def
  make_url_def join_values_def format_value_def endswith_def startswith_def opt_str_def
  make_fp_def strip_dots_def path_join_def dir_exists_def
  do_get_def do_open_write_def do_dump_def sim_env_def sim_get_def start_def excludes_def

lemmas fixture_simps =
  ep_def es_def mapping_request_def test_mappings_def data_record_def mapping_file_def
  documents_file_def search_request_def scroll_request_def page_def hit1_def hit2_def

theorem save_upload_directory_witness:
  "save sim_env ep (Suc (Suc 0)) (start idle) =
     Some (Some (IOError ''Dir /tmp/fake does not exist.''), start idle)
   \<and> upload sim_env ep None (start idle) = (Some (IOError ''Dir /tmp/fake does not exist.''), start idle)
   \<and> (\<exists>st'. save (faulty [mapping_file] []) ep (Suc (Suc 0)) (start export_session) =
               Some (Some (ExternalError ''permission denied''), st')
            \<and> last (trace st') = OpenWrite mapping_file)
   \<and> (\<exists>st'. save sim_env ep (Suc (Suc 0)) (start cut_off) =
               Some (Some (ExternalError ''connection closed''), st')
            \<and> last (trace st') = Get (scroll_request ''C1'') (Inl (ExternalError ''connection closed'')))
   \<and> (\<exists>st'. save (faulty [] [documents_file]) ep (Suc (Suc 0)) (start export_session) =
               Some (Some (ExternalError ''disk full''), st')
            \<and> last (trace st') = Dump documents_file (JArr [hit1, hit2]))"
proof -
  have missing: "\<not> dir_exists sim_env ep (world (start idle))"
    by (simp add: dir_exists_def sim_env_def start_def idle_def ep_def)
  have msg: "directory_not_found sim_env ep = IOError ''Dir /tmp/fake does not exist.''"
    by (simp add: directory_not_found_def format_value_def opt_str_def ep_def)
  have 1: "save sim_env ep (Suc (Suc 0)) (start idle) =
             Some (Some (IOError ''Dir /tmp/fake does not exist.''), start idle)
           \<and> upload sim_env ep None (start idle) =
             (Some (IOError ''Dir /tmp/fake does not exist.''), start idle)"
    using save_upload_directory [where env = sim_env and self = ep and st = "start idle"
        and fuel = "Suc (Suc 0)" and ty = None] missing
    by (simp add: msg)

  \<comment> \<open>the mapping file cannot be opened\<close>
  let ?E = "faulty [mapping_file] []"
  define sq where "sq = snd (query_mappings ?E ep (start export_session))"
  have d: "dir_exists ?E ep (world (start export_session))"
    by (simp add: faulty_simps fixture_simps export_session_def)
  have q: "query_mappings ?E ep (start export_session) = (([] @ data_record # [], None), sq)"
    by (simp add: sq_def faulty_simps fixture_simps export_session_def)
  have l: "dump_mapping_loop ?E ep [] sq = (None, sq)" by simp
  have f: "make_fp (self_dirname ep) [index data_record, type data_record, JStr ''mapping''] ''.json'' =
             Inr mapping_file"
    by (simp add: faulty_simps fixture_simps)
  have o: "open_write ?E mapping_file (world sq) = (Some (ExternalError ''permission denied''), world sq)"
    by (simp add: faulty_def sim_env_def)
  have 2: "save ?E ep (Suc (Suc 0)) (start export_session) =
             Some (Some (ExternalError ''permission denied''),
                   \<lparr>trace = trace sq @ [OpenWrite mapping_file], world = world sq\<rparr>)"
    using save_upload_directory [where env = ?E and self = ep and st = "start export_session"
        and fuel = "Suc (Suc 0)" and pre = "[]" and i = data_record and post = "[]" and err = None
        and sq = sq and sp = sq and fp = mapping_file and e = "ExternalError ''permission denied''"
        and w = "world sq"] d q l f o
    by blast

  \<comment> \<open>the cluster stops answering during the scroll\<close>
  define sm where "sm = snd (dump_mapping sim_env ep (start cut_off))"
  define sq' where "sq' = snd (query_mappings sim_env ep sm)"
  define wo where "wo = (world sq')\<lparr>files := (documents_file, JNull) # files (world sq')\<rparr>"
  define ss where "ss = snd (the (scroll_data sim_env (self_uri ep) (index data_record) (type data_record)
      ''1m'' (Suc (Suc 0)) \<lparr>trace = trace sq' @ [OpenWrite documents_file], world = wo\<rparr>))"
  have d3: "dir_exists sim_env ep (world (start cut_off))"
    by (simp add: faulty_simps fixture_simps cut_off_def)
  have m3: "dump_mapping sim_env ep (start cut_off) = (None, sm)"
    by (simp add: sm_def faulty_simps fixture_simps cut_off_def)
  have q3: "query_mappings sim_env ep sm = (([] @ data_record # [], None), sq')"
    by (simp add: sq'_def sm_def faulty_simps fixture_simps cut_off_def)
  have l3: "dump_data_loop sim_env ep (Suc (Suc 0)) [] sq' = Some (None, sq')" by simp
  have f3: "make_fp (self_dirname ep) [index data_record, type data_record] ''.json'' = Inr documents_file"
    by (simp add: faulty_simps fixture_simps)
  have o3: "open_write sim_env documents_file (world sq') = (None, wo)"
    by (simp add: sim_env_def wo_def)
  have s3: "scroll_data sim_env (self_uri ep) (index data_record) (type data_record) ''1m'' (Suc (Suc 0))
              \<lparr>trace = trace sq' @ [OpenWrite documents_file], world = wo\<rparr> =
            Some (([], Some (ExternalError ''connection closed'')), ss)"
    by (simp add: ss_def wo_def sq'_def sm_def faulty_simps fixture_simps cut_off_def)
  have t3: "last (trace ss) = Get (scroll_request ''C1'') (Inl (ExternalError ''connection closed''))"
    by (simp add: ss_def wo_def sq'_def sm_def faulty_simps fixture_simps cut_off_def)
  have 3: "save sim_env ep (Suc (Suc 0)) (start cut_off) =
             Some (Some (ExternalError ''connection closed''), ss)"
    using save_upload_directory [where env = sim_env and self = ep and st = "start cut_off"
        and fuel = "Suc (Suc 0)" and pre = "[]" and i = data_record and post = "[]" and err = None
        and sm = sm and sq = sq' and sp = sq' and fp = documents_file and w = wo and hits = "[]"
        and e = "ExternalError ''connection closed''" and ss = ss] d3 m3 q3 l3 f3 o3 s3
    by blast

  \<comment> \<open>the document file cannot be written\<close>
  let ?F = "faulty [] [documents_file]"
  define tm where "tm = snd (dump_mapping ?F ep (start export_session))"
  define tq where "tq = snd (query_mappings ?F ep tm)"
  define vo where "vo = (world tq)\<lparr>files := (documents_file, JNull) # files (world tq)\<rparr>"
  define ts where "ts = snd (the (scroll_data ?F (self_uri ep) (index data_record) (type data_record)
      ''1m'' (Suc (Suc 0)) \<lparr>trace = trace tq @ [OpenWrite documents_file], world = vo\<rparr>))"
  have d4: "dir_exists ?F ep (world (start export_session))"
    by (simp add: faulty_simps fixture_simps export_session_def)
  have m4: "dump_mapping ?F ep (start export_session) = (None, tm)"
    by (simp add: tm_def faulty_simps fixture_simps export_session_def)
  have q4: "query_mappings ?F ep tm = (([] @ data_record # [], None), tq)"
    by (simp add: tq_def tm_def faulty_simps fixture_simps export_session_def)
  have l4: "dump_data_loop ?F ep (Suc (Suc 0)) [] tq = Some (None, tq)" by simp
  have o4: "open_write ?F documents_file (world tq) = (None, vo)"
    by (simp add: faulty_def sim_env_def vo_def fixture_simps)
  have s4: "scroll_data ?F (self_uri ep) (index data_record) (type data_record) ''1m'' (Suc (Suc 0))
              \<lparr>trace = trace tq @ [OpenWrite documents_file], world = vo\<rparr> =
            Some (([hit1, hit2], None), ts)"
    by (simp add: ts_def vo_def tq_def tm_def faulty_simps fixture_simps export_session_def)
  have j4: "json_dump ?F documents_file (JArr [hit1, hit2]) (world ts) =
              (Some (ExternalError ''disk full''), world ts)"
    by (simp add: faulty_def sim_env_def)
  have 4: "save ?F ep (Suc (Suc 0)) (start export_session) =
             Some (Some (ExternalError ''disk full''),
                   \<lparr>trace = trace ts @ [Dump documents_file (JArr [hit1, hit2])], world = world ts\<rparr>)"
    using save_upload_directory [where env = ?F and self = ep and st = "start export_session"
        and fuel = "Suc (Suc 0)" and pre = "[]" and i = data_record and post = "[]" and err = None
        and sm = tm and sq = tq and sp = tq and fp = documents_file and w = vo
        and hits = "[hit1, hit2]" and e = "ExternalError ''disk full''" and ss = ts
        and wd = "world ts"] d4 m4 q4 l4 f3 o4 s4 j4
    by blast
  show ?thesis
    using 1 2 3 4 t3 by simp
qed

section \<open>The error checks of the mapping reader\<close>

lemma check_body_error_key:
  "''error'' \<in> fst ` set kvs \<Longrightarrow> check_body idx (JObj kvs) = Inl invalid_request"
  by (simp add: check_body_def)

lemma check_body_no_index:
  "''error'' \<notin> fst ` set kvs \<Longrightarrow> idx = None \<or> idx = Some [] \<Longrightarrow>
   check_body idx (JObj kvs) = Inr (JObj kvs)"
  by (auto simp: check_body_def opt_str_def)

lemma check_body_entry:
  "''error'' \<notin> fst ` set kvs \<Longrightarrow> i \<noteq> [] \<Longrightarrow> map_of kvs i = Some (JObj entry) \<Longrightarrow>
   check_body (Some i) (JObj kvs) =
     (if truthy (case map_of entry ''mappings'' of None \<Rightarrow> JNull | Some m \<Rightarrow> m)
      then Inr (JObj kvs) else Inl (mapping_not_found i))"
  by (simp add: check_body_def opt_str_def)

lemma check_body_no_entry:
  "''error'' \<notin> fst ` set kvs \<Longrightarrow> i \<noteq> [] \<Longrightarrow> map_of kvs i = None \<Longrightarrow>
   check_body (Some i) (JObj kvs) = Inl (KeyError (JStr i))"
  by (simp add: check_body_def opt_str_def)

text \<open>
  C3 (the code on a body without the configured index): for the index \<^verbatim>\<open>test\<close> and the
  body \<^verbatim>\<open>{}\<close>, which has no \<^verbatim>\<open>error\<close> key and no mappings for \<^verbatim>\<open>test\<close>,
  \<^verbatim>\<open>query_from_url\<close> raises \<^verbatim>\<open>KeyError('test')\<close>, which is not its error for a mapping
  that has not been set.
\<close>

theorem query_from_url_index_absent:
  "query_from_url sim_env ep (start no_mapping_session) =
     (Inl (KeyError (JStr ''test'')),
      \<lparr>trace = [Get mapping_request (Inr (JObj []))], world = idle\<rparr>)
   \<and> KeyError (JStr ''test'') \<noteq> mapping_not_found ''test''"
  by (simp add: query_from_url_def check_body_def make_url_def join_values_def endswith_def
      opt_str_def do_get_def sim_env_def sim_get_def start_def ep_def es_def
      no_mapping_session_def mapping_request_def idle_def mapping_not_found_def)

end
